theory Spec2Isabelle
  imports Complex_Main "HOL-Library.Log_Nat" "HOL-Library.Word" "HOL-Library.Stream"
begin

unbundle bit_operations_syntax

section \<open>Python floats\<close>

text \<open>
  A Python \<open>float\<close> is an IEEE 754 binary64 value: a finite number, an infinity or a
  NaN. A finite value is kept as the rational it denotes; every arithmetic operation
  rounds its exact result to the nearest binary64 value, ties to even, as the hardware
  does. The sign of zero is not kept: nothing in the code modelled here divides or
  inspects a sign, and \<open>-0.0\<close> compares equal to \<open>0.0\<close>.
\<close>

datatype pyfloat = Flt rat | PosInf | NegInf | NaN

text \<open>\<open>ilog2 a\<close> is the binary exponent of a positive rational: \<open>2^e \<le> a < 2^(e+1)\<close>.\<close>

definition ilog2 :: "rat \<Rightarrow> int" where
  "ilog2 a = (let (n, d) = quotient_of a; k = bitlen n - bitlen d
              in if 2 powi k \<le> a then k else k - 1)"

definition round_half_even :: "rat \<Rightarrow> int" where
  "round_half_even x = (let f = \<lfloor>x\<rfloor>; r = x - of_int f
     in if r < 1 / 2 then f else if 1 / 2 < r then f + 1 else if even f then f else f + 1)"

text \<open>
  Rounding to the binary64 grid: 53 significant bits, the exponent never below -1022
  (the subnormal range keeps the spacing \<open>2^-1074\<close>).
\<close>

definition binary64 :: "rat \<Rightarrow> rat" where
  "binary64 q = (if q = 0 then 0 else
     let a = \<bar>q\<bar>; e = max (ilog2 a) (- 1022); ulp = 2 powi (e - 52)
     in sgn q * of_int (round_half_even (a / ulp)) * ulp)"

text \<open>
  The largest binary64 value is \<open>2^1024 - 2^971\<close>; an exact result of magnitude
  \<open>2^1024 - 2^970\<close> or more rounds to an infinity.
\<close>

definition overflow_threshold :: rat where
  "overflow_threshold = 2 ^ 1024 - 2 ^ 970"

definition rnd :: "rat \<Rightarrow> pyfloat" where
  "rnd q = (if overflow_threshold \<le> q then PosInf
            else if q \<le> - overflow_threshold then NegInf
            else Flt (binary64 q))"

fun fl_lt :: "pyfloat \<Rightarrow> pyfloat \<Rightarrow> bool" where
  "fl_lt (Flt a) (Flt b) = (a < b)"
| "fl_lt NaN _ = False"
| "fl_lt _ NaN = False"
| "fl_lt PosInf _ = False"
| "fl_lt _ NegInf = False"
| "fl_lt NegInf _ = True"
| "fl_lt _ PosInf = True"

fun fl_le :: "pyfloat \<Rightarrow> pyfloat \<Rightarrow> bool" where
  "fl_le (Flt a) (Flt b) = (a \<le> b)"
| "fl_le NaN _ = False"
| "fl_le _ NaN = False"
| "fl_le NegInf _ = True"
| "fl_le _ PosInf = True"
| "fl_le PosInf _ = False"
| "fl_le _ NegInf = False"

definition fl_gt :: "pyfloat \<Rightarrow> pyfloat \<Rightarrow> bool" where
  "fl_gt a b = fl_lt b a"

definition fl_ge :: "pyfloat \<Rightarrow> pyfloat \<Rightarrow> bool" where
  "fl_ge a b = fl_le b a"

fun fl_neg :: "pyfloat \<Rightarrow> pyfloat" where
  "fl_neg (Flt a) = Flt (- a)"
| "fl_neg PosInf = NegInf"
| "fl_neg NegInf = PosInf"
| "fl_neg NaN = NaN"

fun fl_add :: "pyfloat \<Rightarrow> pyfloat \<Rightarrow> pyfloat" where
  "fl_add (Flt a) (Flt b) = rnd (a + b)"
| "fl_add NaN _ = NaN"
| "fl_add _ NaN = NaN"
| "fl_add PosInf NegInf = NaN"
| "fl_add NegInf PosInf = NaN"
| "fl_add PosInf _ = PosInf"
| "fl_add _ PosInf = PosInf"
| "fl_add NegInf _ = NegInf"
| "fl_add _ NegInf = NegInf"

definition fl_sub :: "pyfloat \<Rightarrow> pyfloat \<Rightarrow> pyfloat" where
  "fl_sub a b = fl_add a (fl_neg b)"

text \<open>The sign of an infinity times a finite factor; zero times an infinity is NaN.\<close>

definition inf_times :: "bool \<Rightarrow> rat \<Rightarrow> pyfloat" where
  "inf_times positive b =
     (if b = 0 then NaN else if (0 < b) = positive then PosInf else NegInf)"

fun fl_mul :: "pyfloat \<Rightarrow> pyfloat \<Rightarrow> pyfloat" where
  "fl_mul (Flt a) (Flt b) = rnd (a * b)"
| "fl_mul NaN _ = NaN"
| "fl_mul _ NaN = NaN"
| "fl_mul PosInf (Flt b) = inf_times True b"
| "fl_mul NegInf (Flt b) = inf_times False b"
| "fl_mul (Flt a) PosInf = inf_times True a"
| "fl_mul (Flt a) NegInf = inf_times False a"
| "fl_mul PosInf PosInf = PosInf"
| "fl_mul NegInf NegInf = PosInf"
| "fl_mul PosInf NegInf = NegInf"
| "fl_mul NegInf PosInf = NegInf"

text \<open>
  The builtins \<open>max(a, b)\<close> and \<open>min(a, b)\<close> keep the first argument unless the
  second compares strictly greater (smaller); a NaN never does.
\<close>

definition py_max :: "pyfloat \<Rightarrow> pyfloat \<Rightarrow> pyfloat" where
  "py_max a b = (if fl_gt b a then b else a)"

definition py_min :: "pyfloat \<Rightarrow> pyfloat \<Rightarrow> pyfloat" where
  "py_min a b = (if fl_lt b a then b else a)"

text \<open>
  \<open>round(x, ndigits)\<close> on a float rounds the exact value of \<open>x\<close> to \<open>ndigits\<close>
  decimals, ties to even, and returns the nearest float; an infinity or a NaN is
  returned as it is.
\<close>

fun py_round :: "pyfloat \<Rightarrow> nat \<Rightarrow> pyfloat" where
  "py_round (Flt q) ndigits = rnd (of_int (round_half_even (q * 10 ^ ndigits)) / 10 ^ ndigits)"
| "py_round x ndigits = x"

text \<open>
  \<open>random.gauss(mu, sigma)\<close> returns \<open>mu + z * sigma\<close>, where \<open>z\<close> is the next
  standard-normal sample of the generator, always a finite float. The sample is an
  input of the model.
\<close>

definition gauss :: "pyfloat \<Rightarrow> pyfloat \<Rightarrow> rat \<Rightarrow> pyfloat" where
  "gauss mu sigma z = fl_add mu (fl_mul (Flt z) sigma)"

text \<open>The closed unit interval of floats; a NaN is outside.\<close>

definition in_unit :: "pyfloat \<Rightarrow> bool" where
  "in_unit x = (fl_le (Flt 0) x \<and> fl_le x (Flt 1))"

section \<open>Exceptions and strings\<close>

text \<open>The exceptions that the modelled code and the library calls it makes can raise.\<close>

datatype py_error =
    ValueError | OverflowError | TypeError | RuntimeError | UnicodeEncodeError
  | UnicodeDecodeError | InvalidTag | MechanismNotSupportedError | MechanismNotEnabledError

text \<open>
  A Python \<open>str\<close> is a sequence of Unicode code points. String constants of the
  source that are only compared or passed on (algorithm names) are written as HOL
  strings; \<open>ascii\<close> gives the code points of an ASCII literal.
\<close>

type_synonym pystr = "nat list"

definition ascii :: "string \<Rightarrow> pystr" where
  "ascii cs = map of_char cs"

section \<open>Phase 5: the decoherence simulator\<close>

record simulator =
  coherence :: pyfloat
  decay_rate :: pyfloat
  history :: "pyfloat list"
  tick :: int

text \<open>\<open>GravityFieldDecoherenceSimulator.__init__\<close>: four assignments, no check.\<close>

definition simulator_init :: "pyfloat \<Rightarrow> pyfloat \<Rightarrow> simulator" where
  "simulator_init initial_coherence decay =
     \<lparr>coherence = initial_coherence, decay_rate = decay, history = [], tick = 0\<rparr>"

text \<open>
  \<open>GravityFieldDecoherenceSimulator.step\<close>, with the sample \<open>z\<close> that
  \<open>random.gauss\<close> draws. It returns the new coherence and the updated object.
\<close>

definition step :: "simulator \<Rightarrow> pyfloat \<Rightarrow> rat \<Rightarrow> pyfloat \<times> simulator" where
  "step s perturbation_noise z =
     (let c1 = fl_mul (coherence s) (fl_sub (Flt 1) (decay_rate s));
          noise = gauss (Flt 0) perturbation_noise z;
          c2 = py_max (Flt 0) (py_min (Flt 1) (fl_add c1 noise))
      in (c2, s\<lparr>coherence := c2, tick := tick s + 1,
                 history := history s @ [py_round c2 4]\<rparr>))"

text \<open>
  \<open>int(x)\<close> on a float truncates towards zero; it raises \<open>ValueError\<close> on a NaN
  and \<open>OverflowError\<close> on an infinity.
\<close>

fun py_int :: "pyfloat \<Rightarrow> py_error + int" where
  "py_int (Flt q) = Inr (if 0 \<le> q then \<lfloor>q\<rfloor> else \<lceil>q\<rceil>)"
| "py_int NaN = Inl ValueError"
| "py_int _ = Inl OverflowError"

text \<open>
  \<open>coherence_bar\<close>: the markup of a 40-cell bar. A string times a negative count is
  empty, as \<open>replicate\<close> on \<open>nat\<close> of a negative integer is. The method assigns no
  attribute, so the object is returned unchanged, also when \<open>int\<close> raises.
\<close>

definition coherence_bar :: "simulator \<Rightarrow> (py_error + pystr) \<times> simulator" where
  "coherence_bar s =
     (case py_int (fl_mul (coherence s) (Flt 40)) of
        Inl e \<Rightarrow> (Inl e, s)
      | Inr filled \<Rightarrow>
          let color = (if fl_gt (coherence s) (rnd (3 / 5)) then ascii ''green''
                       else if fl_gt (coherence s) (rnd (3 / 10)) then ascii ''yellow''
                       else ascii ''red'');
              bar = ascii ''['' @ color @ ascii '']'' @ replicate (nat filled) 9608
                    @ replicate (nat (40 - filled)) 9617 @ ascii ''[/'' @ color @ ascii '']''
          in (Inr bar, s))"

text \<open>
  \<open>is_coherent\<close> reads the coherence and returns a boolean; the object is returned
  unchanged, since the method assigns no attribute.
\<close>

definition is_coherent :: "simulator \<Rightarrow> pyfloat \<Rightarrow> bool \<times> simulator" where
  "is_coherent s threshold = (fl_ge (coherence s) threshold, s)"

text \<open>A run of \<open>step\<close> calls, one noise magnitude and one sample per call.\<close>

fun steps :: "simulator \<Rightarrow> (pyfloat \<times> rat) list \<Rightarrow> simulator" where
  "steps s [] = s"
| "steps s ((sigma, z) # rest) = steps (snd (step s sigma z)) rest"

text \<open>
  The methods of the class as calls on an object; \<open>invoke\<close> gives the object after
  the call, whatever the call returned or raised.
\<close>

datatype call = Step pyfloat rat | CoherenceBar | IsCoherent pyfloat

fun invoke :: "simulator \<Rightarrow> call \<Rightarrow> simulator" where
  "invoke s (Step sigma z) = snd (step s sigma z)"
| "invoke s CoherenceBar = snd (coherence_bar s)"
| "invoke s (IsCoherent threshold) = snd (is_coherent s threshold)"

fun run :: "simulator \<Rightarrow> call list \<Rightarrow> simulator" where
  "run s [] = s"
| "run s (c # cs) = run (invoke s c) cs"

fun step_args :: "call list \<Rightarrow> (pyfloat \<times> rat) list" where
  "step_args [] = []"
| "step_args (Step sigma z # cs) = (sigma, z) # step_args cs"
| "step_args (_ # cs) = step_args cs"

text \<open>
  The transition of the specification, in its words:
  \<open>value' = clamp(value * (1 - d) + Gaussian(mean=0, stddev=\<sigma>), 0.0, 1.0)\<close>, with the
  usual clamp.
\<close>

definition clamp :: "pyfloat \<Rightarrow> pyfloat \<Rightarrow> pyfloat \<Rightarrow> pyfloat" where
  "clamp x lo hi = (if fl_lt x lo then lo else if fl_gt x hi then hi else x)"

definition spec_transition :: "pyfloat \<Rightarrow> pyfloat \<Rightarrow> pyfloat \<Rightarrow> rat \<Rightarrow> pyfloat" where
  "spec_transition v d sigma z =
     clamp (fl_add (fl_mul v (fl_sub (Flt 1) d)) (gauss (Flt 0) sigma z)) (Flt 0) (Flt 1)"

text \<open>
  The configuration range of the specification: a coherence in \<open>[0, 1]\<close> and a decay
  rate in \<open>(0, 1)\<close>.
\<close>

definition valid_config :: "pyfloat \<Rightarrow> pyfloat \<Rightarrow> bool" where
  "valid_config c d = (in_unit c \<and> fl_lt (Flt 0) d \<and> fl_lt d (Flt 1))"

section \<open>Phase 5: the algorithm negotiator\<close>

record algorithm =
  name :: string
  pqc :: bool
  nist_level :: "int option"
  status :: string

definition ALGORITHM_CHAIN :: "algorithm list" where
  "ALGORITHM_CHAIN =
     [\<lparr>name = ''ML-KEM-768'', pqc = True, nist_level = Some 3, status = ''PRIMARY''\<rparr>,
      \<lparr>name = ''ML-KEM-1024'', pqc = True, nist_level = Some 5, status = ''FALLBACK-1''\<rparr>,
      \<lparr>name = ''ML-DSA-65+AES'', pqc = True, nist_level = Some 3, status = ''FALLBACK-2''\<rparr>,
      \<lparr>name = ''X25519+AES256'', pqc = False, nist_level = None,
        status = ''EMERGENCY (classical)''\<rparr>]"

text \<open>\<open>CryptographicAgility.negotiate_algorithm\<close>; the literals \<open>0.7\<close>, \<open>0.4\<close> and \<open>0.2\<close> are
  the floats nearest to 7/10, 2/5 and 1/5.\<close>

definition negotiate_algorithm :: "pyfloat \<Rightarrow> algorithm" where
  "negotiate_algorithm field_coherence =
     (if fl_gt field_coherence (rnd (7 / 10)) then ALGORITHM_CHAIN ! 0
      else if fl_gt field_coherence (rnd (2 / 5)) then ALGORITHM_CHAIN ! 1
      else if fl_gt field_coherence (rnd (1 / 5)) then ALGORITHM_CHAIN ! 2
      else ALGORITHM_CHAIN ! 3)"

text \<open>
  \<open>run_decoherence_timeline\<close>. Each printed line is kept as a row: the step number,
  the bar, the coherence, the selected algorithm and whether the line carries the
  \<open>ALGORITHM SWITCH\<close> mark. \<open>zs i\<close> is the sample that the call of \<open>step\<close> in
  iteration \<open>i\<close> draws. The loop carries the simulator and \<open>previous_algo\<close> and
  nothing else.
\<close>

record timeline_row =
  row_step :: nat
  row_bar :: pystr
  row_coherence :: pyfloat
  row_algo :: algorithm
  row_switch :: bool

text \<open>The truth value of \<open>previous_algo\<close>: \<open>None\<close> and the empty string are false.\<close>

fun truthy :: "string option \<Rightarrow> bool" where
  "truthy None = False"
| "truthy (Some p) = (p \<noteq> [])"

fun timeline_loop ::
  "pyfloat \<Rightarrow> (nat \<Rightarrow> rat) \<Rightarrow> nat \<Rightarrow> nat \<Rightarrow> simulator \<Rightarrow> string option
     \<Rightarrow> py_error + (timeline_row list \<times> simulator)" where
  "timeline_loop noise_std zs i 0 field previous_algo = Inr ([], field)"
| "timeline_loop noise_std zs i (Suc n) field previous_algo =
     (let (c, field1) = step field noise_std (zs i);
          algo = negotiate_algorithm c
      in case coherence_bar field1 of
           (Inl e, _) \<Rightarrow> Inl e
         | (Inr bar, field2) \<Rightarrow>
             let row = \<lparr>row_step = i, row_bar = bar, row_coherence = c, row_algo = algo,
                        row_switch = (Some (name algo) \<noteq> previous_algo \<and> truthy previous_algo)\<rparr>
             in if fl_lt c (rnd (1 / 20)) then Inr ([row], field2)
                else (case timeline_loop noise_std zs (Suc i) n field2 (Some (name algo)) of
                        Inl e \<Rightarrow> Inl e
                      | Inr (rows, f) \<Rightarrow> Inr (row # rows, f)))"

definition run_decoherence_timeline ::
  "int \<Rightarrow> pyfloat \<Rightarrow> (nat \<Rightarrow> rat) \<Rightarrow> py_error + (timeline_row list \<times> pyfloat list)" where
  "run_decoherence_timeline n noise_std zs =
     (case timeline_loop noise_std zs 0 (nat n) (simulator_init (Flt 1) (rnd (3 / 50))) None of
        Inl e \<Rightarrow> Inl e
      | Inr (rows, field) \<Rightarrow> Inr (rows, history field))"

text \<open>
  What the marks of a list of rows have to be, given the selection kept before the
  first row.
\<close>

definition marks_from :: "string option \<Rightarrow> timeline_row list \<Rightarrow> bool" where
  "marks_from previous rows =
     ((rows \<noteq> [] \<longrightarrow> row_switch (rows ! 0) =
          (Some (name (row_algo (rows ! 0))) \<noteq> previous \<and> truthy previous)) \<and>
      (\<forall>k. Suc k < length rows \<longrightarrow>
          row_switch (rows ! Suc k) = (row_algo (rows ! Suc k) \<noteq> row_algo (rows ! k))) \<and>
      (\<forall>k < length rows. row_algo (rows ! k) = negotiate_algorithm (row_coherence (rows ! k))))"

section \<open>Bytes, hexadecimal text and UTF-8\<close>

type_synonym byte = "8 word"
type_synonym bytes = "byte list"

definition ascii_bytes :: "string \<Rightarrow> bytes" where
  "ascii_bytes cs = map (\<lambda>c. of_nat (of_char c)) cs"

text \<open>\<open>bytes.hex()\<close>: two lowercase digits per byte, high nibble first.\<close>

definition hex_digit :: "nat \<Rightarrow> nat" where
  "hex_digit n = (if n < 10 then 48 + n else 87 + n)"

definition bytes_hex :: "bytes \<Rightarrow> pystr" where
  "bytes_hex bs = concat (map (\<lambda>b. [hex_digit (unat b div 16), hex_digit (unat b mod 16)]) bs)"

text \<open>
  \<open>bytes.fromhex(s)\<close>: ASCII whitespace is skipped before a byte, then two digits
  of either case are read; anything else raises \<open>ValueError\<close>.
\<close>

definition digit_value :: "nat \<Rightarrow> nat option" where
  "digit_value c =
     (if 48 \<le> c \<and> c \<le> 57 then Some (c - 48)
      else if 97 \<le> c \<and> c \<le> 102 then Some (c - 87)
      else if 65 \<le> c \<and> c \<le> 70 then Some (c - 55)
      else None)"

definition is_space :: "nat \<Rightarrow> bool" where
  "is_space c = (c = 32 \<or> (9 \<le> c \<and> c \<le> 13))"

fun bytes_fromhex :: "pystr \<Rightarrow> py_error + bytes" where
  "bytes_fromhex [] = Inr []"
| "bytes_fromhex [c] = (if is_space c then Inr [] else Inl ValueError)"
| "bytes_fromhex (c # c2 # rest) =
     (if is_space c then bytes_fromhex (c2 # rest)
      else case (digit_value c, digit_value c2) of
             (Some hi, Some lo) \<Rightarrow>
               (case bytes_fromhex rest of
                  Inl e \<Rightarrow> Inl e
                | Inr bs \<Rightarrow> Inr (of_nat (hi * 16 + lo) # bs))
           | _ \<Rightarrow> Inl ValueError)"

text \<open>
  \<open>str.encode()\<close>: UTF-8. A surrogate code point raises \<open>UnicodeEncodeError\<close>; a
  number that is no code point cannot occur in a \<open>str\<close> and is given the same error.
\<close>

definition utf8_encode_cp :: "nat \<Rightarrow> py_error + bytes" where
  "utf8_encode_cp c =
     (if c < 128 then Inr [of_nat c]
      else if c < 2048 then Inr [of_nat (192 + c div 64), of_nat (128 + c mod 64)]
      else if 55296 \<le> c \<and> c \<le> 57343 then Inl UnicodeEncodeError
      else if c < 65536 then
        Inr [of_nat (224 + c div 4096), of_nat (128 + c div 64 mod 64), of_nat (128 + c mod 64)]
      else if c < 1114112 then
        Inr [of_nat (240 + c div 262144), of_nat (128 + c div 4096 mod 64),
             of_nat (128 + c div 64 mod 64), of_nat (128 + c mod 64)]
      else Inl UnicodeEncodeError)"

fun str_encode :: "pystr \<Rightarrow> py_error + bytes" where
  "str_encode [] = Inr []"
| "str_encode (c # cs) =
     (case utf8_encode_cp c of
        Inl e \<Rightarrow> Inl e
      | Inr bs \<Rightarrow> (case str_encode cs of Inl e \<Rightarrow> Inl e | Inr rest \<Rightarrow> Inr (bs @ rest)))"

text \<open>
  \<open>bytes.decode()\<close>: strict UTF-8, rejecting stray or missing continuation bytes,
  overlong forms, surrogates and values above \<open>U+10FFFF\<close>.
\<close>

definition cont :: "byte \<Rightarrow> bool" where
  "cont b = (128 \<le> unat b \<and> unat b \<le> 191)"

definition prepend :: "nat \<Rightarrow> py_error + pystr \<Rightarrow> py_error + pystr" where
  "prepend c r = (case r of Inl e \<Rightarrow> Inl e | Inr cs \<Rightarrow> Inr (c # cs))"

fun bytes_decode :: "bytes \<Rightarrow> py_error + pystr" where
  "bytes_decode [] = Inr []"
| "bytes_decode (b # bs) =
     (let n = unat b in
      if n < 128 then prepend n (bytes_decode bs)
      else if 194 \<le> n \<and> n \<le> 223 then
        (case bs of
           b1 # r \<Rightarrow>
             if cont b1 then prepend ((n - 192) * 64 + (unat b1 - 128)) (bytes_decode r)
             else Inl UnicodeDecodeError
         | _ \<Rightarrow> Inl UnicodeDecodeError)
      else if 224 \<le> n \<and> n \<le> 239 then
        (case bs of
           b1 # b2 # r \<Rightarrow>
             let c = (n - 224) * 4096 + (unat b1 - 128) * 64 + (unat b2 - 128)
             in if cont b1 \<and> cont b2 \<and> 2048 \<le> c \<and> \<not> (55296 \<le> c \<and> c \<le> 57343)
                then prepend c (bytes_decode r) else Inl UnicodeDecodeError
         | _ \<Rightarrow> Inl UnicodeDecodeError)
      else if 240 \<le> n \<and> n \<le> 244 then
        (case bs of
           b1 # b2 # b3 # r \<Rightarrow>
             let c = (n - 240) * 262144 + (unat b1 - 128) * 4096 + (unat b2 - 128) * 64
                     + (unat b3 - 128)
             in if cont b1 \<and> cont b2 \<and> cont b3 \<and> 65536 \<le> c \<and> c < 1114112
                then prepend c (bytes_decode r) else Inl UnicodeDecodeError
         | _ \<Rightarrow> Inl UnicodeDecodeError)
      else Inl UnicodeDecodeError)"

section \<open>HMAC and HKDF over SHA3-256\<close>

text \<open>
  The hash function is a capability taken from outside; SHA3-256 has a digest of 32
  bytes and a block of 136 bytes. \<open>hmac\<close> is HMAC (RFC 2104) over it.
\<close>

definition hmac :: "(bytes \<Rightarrow> bytes) \<Rightarrow> bytes \<Rightarrow> bytes \<Rightarrow> bytes" where
  "hmac h key msg =
     (let k0 = (if 136 < length key then h key else key);
          k = k0 @ replicate (136 - length k0) 0
      in h (map (\<lambda>b. b XOR 92) k @ h (map (\<lambda>b. b XOR 54) k @ msg)))"

text \<open>
  The expansion loop of \<open>HKDFExpand\<close>: while \<open>digest_size * (len(output) - 1) < length\<close>,
  append \<open>HMAC(key_material, output[-1] + info + bytes([counter]))\<close>. The list starts
  as \<open>[b""]\<close> and is never empty.
\<close>

function expand_loop ::
  "(bytes \<Rightarrow> bytes) \<Rightarrow> bytes \<Rightarrow> bytes \<Rightarrow> nat \<Rightarrow> bytes list \<Rightarrow> nat \<Rightarrow> bytes list" where
  "expand_loop h key_material info len output counter =
     (if 32 * (int (length output) - 1) < int len
      then expand_loop h key_material info len
             (output @ [hmac h key_material (last output @ info @ [of_nat counter])])
             (counter + 1)
      else output)"
  by pat_completeness auto
termination
  by (relation "measure (\<lambda>(h, k, i, len, output, c). nat (int len - 32 * (int (length output) - 1)))")
    auto

text \<open>
  \<open>HKDF(algorithm=SHA3_256, length, salt, info).derive(key_material)\<close>: a length above
  \<open>255 * digest_size\<close> raises \<open>ValueError\<close>; no salt means 32 zero bytes; extract, then
  expand and cut to \<open>length\<close> bytes.
\<close>

definition hkdf_derive ::
  "(bytes \<Rightarrow> bytes) \<Rightarrow> nat \<Rightarrow> bytes option \<Rightarrow> bytes \<Rightarrow> bytes \<Rightarrow> py_error + bytes" where
  "hkdf_derive h len salt info key_material =
     (if 255 * 32 < len then Inl ValueError
      else let s = (case salt of None \<Rightarrow> replicate 32 0 | Some s \<Rightarrow> s);
               prk = hmac h s key_material
           in Inr (take len (concat (expand_loop h prk info len [[]] 1))))"

section \<open>Phase 3: the secure tunnel\<close>

text \<open>
  The capability provider: the KEM of \<open>oqs\<close> (with the coins that encapsulation
  draws as an input), AES-GCM of \<open>cryptography\<close> and SHA3-256. A call that raises
  returns the exception.
\<close>

record provider =
  kem_encap :: "string \<Rightarrow> bytes \<Rightarrow> bytes \<Rightarrow> py_error + bytes \<times> bytes"
  kem_decap :: "string \<Rightarrow> bytes \<Rightarrow> bytes \<Rightarrow> py_error + bytes"
  aead_encrypt :: "bytes \<Rightarrow> bytes \<Rightarrow> bytes \<Rightarrow> bytes \<Rightarrow> py_error + bytes"
  aead_decrypt :: "bytes \<Rightarrow> bytes \<Rightarrow> bytes \<Rightarrow> bytes \<Rightarrow> py_error + bytes"
  sha3_256 :: "bytes \<Rightarrow> bytes"

text \<open>\<open>AESGCM(key)\<close> accepts a key of 128, 192 or 256 bits and raises \<open>ValueError\<close> otherwise.\<close>

definition aesgcm_init :: "bytes \<Rightarrow> py_error + bytes" where
  "aesgcm_init key = (if length key \<in> {16, 24, 32} then Inr key else Inl ValueError)"

text \<open>\<open>os.urandom(n)\<close> takes the next \<open>n\<close> bytes of the system's random stream.\<close>

definition os_urandom :: "nat \<Rightarrow> byte stream \<Rightarrow> bytes \<times> byte stream" where
  "os_urandom n rng = (stake n rng, sdrop n rng)"

definition sender_encapsulate ::
  "provider \<Rightarrow> pystr \<Rightarrow> string \<Rightarrow> bytes \<Rightarrow> py_error + pystr \<times> bytes" where
  "sender_encapsulate P public_key_hex algorithm coins =
     (case bytes_fromhex public_key_hex of
        Inl e \<Rightarrow> Inl e
      | Inr public_key_bytes \<Rightarrow>
          (case kem_encap P algorithm public_key_bytes coins of
             Inl e \<Rightarrow> Inl e
           | Inr (ciphertext_kem, shared_secret) \<Rightarrow> Inr (bytes_hex ciphertext_kem, shared_secret)))"

definition derive_aes_key :: "(bytes \<Rightarrow> bytes) \<Rightarrow> bytes \<Rightarrow> bytes \<Rightarrow> py_error + bytes" where
  "derive_aes_key h shared_secret context = hkdf_derive h 32 None context shared_secret"

text \<open>The default of the parameter \<open>context\<close>.\<close>

definition default_context :: bytes where
  "default_context = ascii_bytes ''icarus-tunnel-v1''"

definition encrypt_payload ::
  "provider \<Rightarrow> bytes \<Rightarrow> bytes \<Rightarrow> byte stream
     \<Rightarrow> (py_error + pystr \<times> pystr \<times> pystr) \<times> byte stream" where
  "encrypt_payload P aes_key plaintext rng =
     (let (nonce, rng') = os_urandom 12 rng;
          aad = ascii_bytes ''icarus-telemetry-channel''
      in (case aesgcm_init aes_key of
            Inl e \<Rightarrow> Inl e
          | Inr aesgcm \<Rightarrow>
              (case aead_encrypt P aesgcm nonce plaintext aad of
                 Inl e \<Rightarrow> Inl e
               | Inr ciphertext \<Rightarrow>
                   (case bytes_decode aad of
                      Inl e \<Rightarrow> Inl e
                    | Inr aad_text \<Rightarrow> Inr (bytes_hex nonce, bytes_hex ciphertext, aad_text))),
          rng'))"

definition receiver_decapsulate ::
  "provider \<Rightarrow> pystr \<Rightarrow> pystr \<Rightarrow> string \<Rightarrow> py_error + bytes" where
  "receiver_decapsulate P private_key_hex ciphertext_kem_hex algorithm =
     (case bytes_fromhex private_key_hex of
        Inl e \<Rightarrow> Inl e
      | Inr private_key_bytes \<Rightarrow>
          (case bytes_fromhex ciphertext_kem_hex of
             Inl e \<Rightarrow> Inl e
           | Inr ciphertext_kem_bytes \<Rightarrow> kem_decap P algorithm private_key_bytes ciphertext_kem_bytes))"

text \<open>
  \<open>decrypt_payload\<close>. The two \<open>fromhex\<close> calls and the constructor are outside the
  \<open>try\<close>; the handler of \<open>InvalidTag\<close> prints and raises the same exception again, and
  any other exception passes through.
\<close>

definition decrypt_payload ::
  "provider \<Rightarrow> bytes \<Rightarrow> pystr \<Rightarrow> pystr \<Rightarrow> pystr \<Rightarrow> py_error + bytes" where
  "decrypt_payload P aes_key nonce_hex ciphertext_hex aad =
     (case bytes_fromhex nonce_hex of
        Inl e \<Rightarrow> Inl e
      | Inr nonce \<Rightarrow>
          (case bytes_fromhex ciphertext_hex of
             Inl e \<Rightarrow> Inl e
           | Inr ciphertext \<Rightarrow>
               (case aesgcm_init aes_key of
                  Inl e \<Rightarrow> Inl e
                | Inr aesgcm \<Rightarrow>
                    (case str_encode aad of
                       Inl e \<Rightarrow> Inl e
                     | Inr aad_bytes \<Rightarrow>
                         (case aead_decrypt P aesgcm nonce ciphertext aad_bytes of
                            Inr plaintext \<Rightarrow> Inr plaintext
                          | Inl e \<Rightarrow> if e = InvalidTag then Inl InvalidTag else Inl e)))))"

text \<open>
  The two sides as the main program and the lab runner chain them: the sender
  encapsulates, derives and seals; the receiver decapsulates, derives and opens.
\<close>

record tunnel_record =
  kem_ciphertext :: pystr
  aes_nonce :: pystr
  aes_ciphertext :: pystr
  aad_text :: pystr

definition sender_side ::
  "provider \<Rightarrow> pystr \<Rightarrow> string \<Rightarrow> bytes \<Rightarrow> bytes \<Rightarrow> byte stream
     \<Rightarrow> py_error + bytes \<times> tunnel_record" where
  "sender_side P public_key_hex algorithm plaintext coins rng =
     (case sender_encapsulate P public_key_hex algorithm coins of
        Inl e \<Rightarrow> Inl e
      | Inr (ciphertext_kem_hex, shared_secret_sender) \<Rightarrow>
          (case derive_aes_key (sha3_256 P) shared_secret_sender default_context of
             Inl e \<Rightarrow> Inl e
           | Inr aes_key_sender \<Rightarrow>
               (case fst (encrypt_payload P aes_key_sender plaintext rng) of
                  Inl e \<Rightarrow> Inl e
                | Inr (nonce_hex, ciphertext_hex, aad) \<Rightarrow>
                    Inr (shared_secret_sender,
                         \<lparr>kem_ciphertext = ciphertext_kem_hex, aes_nonce = nonce_hex,
                          aes_ciphertext = ciphertext_hex, aad_text = aad\<rparr>))))"

definition receiver_side ::
  "provider \<Rightarrow> pystr \<Rightarrow> string \<Rightarrow> tunnel_record \<Rightarrow> py_error + bytes \<times> bytes" where
  "receiver_side P private_key_hex algorithm r =
     (case receiver_decapsulate P private_key_hex (kem_ciphertext r) algorithm of
        Inl e \<Rightarrow> Inl e
      | Inr shared_secret_receiver \<Rightarrow>
          (case derive_aes_key (sha3_256 P) shared_secret_receiver default_context of
             Inl e \<Rightarrow> Inl e
           | Inr aes_key_receiver \<Rightarrow>
               (case decrypt_payload P aes_key_receiver (aes_nonce r) (aes_ciphertext r)
                       (aad_text r) of
                  Inl e \<Rightarrow> Inl e
                | Inr plaintext_recovered \<Rightarrow> Inr (shared_secret_receiver, plaintext_recovered))))"

text \<open>
  The contract of the provider: decapsulation with the matching private key recovers
  the secret that encapsulation returned; opening what was sealed, under the same key,
  nonce and associated data, returns the plaintext; the hash returns 32 bytes.
\<close>

definition kem_correct :: "provider \<Rightarrow> string \<Rightarrow> bytes \<Rightarrow> bytes \<Rightarrow> bool" where
  "kem_correct P algorithm pk sk =
     (\<forall>coins ct ss. kem_encap P algorithm pk coins = Inr (ct, ss)
        \<longrightarrow> kem_decap P algorithm sk ct = Inr ss)"

definition aead_correct :: "provider \<Rightarrow> bool" where
  "aead_correct P =
     (\<forall>key nonce plaintext aad ct. aead_encrypt P key nonce plaintext aad = Inr ct
        \<longrightarrow> aead_decrypt P key nonce ct aad = Inr plaintext)"

definition hash_correct :: "(bytes \<Rightarrow> bytes) \<Rightarrow> bool" where
  "hash_correct h = (\<forall>m. length (h m) = 32)"

text \<open>
  A small provider on which the theorems are instantiated: the hash repeats the byte
  sum of its input, the KEM hashes the coins with the key (public and private key are
  the same bytes), and the cipher appends a 16-byte tag over key, nonce, associated
  data and plaintext.
\<close>

definition toy_hash :: "bytes \<Rightarrow> bytes" where
  "toy_hash m = replicate 32 (sum_list m)"

definition toy_tag :: "bytes \<Rightarrow> bytes \<Rightarrow> bytes \<Rightarrow> bytes \<Rightarrow> bytes" where
  "toy_tag key nonce plaintext aad = take 16 (toy_hash (key @ nonce @ aad @ plaintext))"

definition toy_provider :: provider where
  "toy_provider =
     \<lparr>kem_encap = (\<lambda>algorithm pk coins.
          if algorithm = ''ML-KEM-768'' then Inr (coins, toy_hash (coins @ pk))
          else Inl MechanismNotSupportedError),
      kem_decap = (\<lambda>algorithm sk ct.
          if algorithm = ''ML-KEM-768'' then Inr (toy_hash (ct @ sk))
          else Inl MechanismNotSupportedError),
      aead_encrypt = (\<lambda>key nonce plaintext aad.
          Inr (plaintext @ toy_tag key nonce plaintext aad)),
      aead_decrypt = (\<lambda>key nonce ct aad.
          if length ct < 16 then Inl InvalidTag
          else let plaintext = take (length ct - 16) ct
               in if drop (length ct - 16) ct = toy_tag key nonce plaintext aad
                  then Inr plaintext else Inl InvalidTag),
      sha3_256 = toy_hash\<rparr>"

section \<open>Facts about float comparison\<close>

lemma fl_le_not_gt: "fl_le a b \<Longrightarrow> \<not> fl_gt a b"
  unfolding fl_gt_def by (cases a; cases b) auto

lemma fl_le_lt_trans: "fl_le a b \<Longrightarrow> fl_lt b c \<Longrightarrow> fl_lt a c"
  by (cases a; cases b; cases c) auto

lemma fl_lt_irrefl: "\<not> fl_lt a a"
  by (cases a) auto

lemma fl_lt_asym: "fl_lt a b \<Longrightarrow> \<not> fl_lt b a"
  by (cases a; cases b) auto

lemma overflow_threshold_big: "1000 < overflow_threshold"
proof -
  define P :: rat where "P = 2 ^ 970"
  have P1: "1 \<le> P" unfolding P_def by (rule one_le_power) simp
  have "(2::rat) ^ 1024 = 2 ^ (970 + 54)" by simp
  also have "\<dots> = P * 2 ^ 54" unfolding P_def by (rule power_add)
  finally have "overflow_threshold = P * 2 ^ 54 - P"
    unfolding overflow_threshold_def P_def by (rule arg_cong2 [where f = "(-)"]) simp
  also have "\<dots> = P * (2 ^ 54 - 1)" by (simp only: right_diff_distrib mult_1_right)
  finally have eq: "overflow_threshold = P * (2 ^ 54 - 1)" .
  have "(1000::rat) < 1 * (2 ^ 54 - 1)" by simp
  also have "\<dots> \<le> P * (2 ^ 54 - 1)" by (rule mult_right_mono [OF P1]) simp
  finally show ?thesis unfolding eq .
qed

lemma rnd_small: "\<bar>q\<bar> \<le> 1000 \<Longrightarrow> rnd q = Flt (binary64 q)"
proof -
  assume "\<bar>q\<bar> \<le> 1000"
  with overflow_threshold_big
  have "\<not> overflow_threshold \<le> q" "\<not> q \<le> - overflow_threshold"
    by linarith+
  then show ?thesis by (simp only: rnd_def if_False)
qed

lemma b64_07: "binary64 (7 / 10) = 3152519739159347 / 4503599627370496"
  by code_simp

lemma b64_04: "binary64 (2 / 5) = 3602879701896397 / 9007199254740992"
  by code_simp

lemma b64_02: "binary64 (1 / 5) = 3602879701896397 / 18014398509481984"
  by code_simp

lemma lit_07: "rnd (7 / 10) = Flt (3152519739159347 / 4503599627370496)"
  by (simp add: rnd_small b64_07)

lemma lit_04: "rnd (2 / 5) = Flt (3602879701896397 / 9007199254740992)"
  by (simp add: rnd_small b64_04)

lemma lit_02: "rnd (1 / 5) = Flt (3602879701896397 / 18014398509481984)"
  by (simp add: rnd_small b64_02)

lemma lit_order: "fl_lt (rnd (1 / 5)) (rnd (2 / 5))" "fl_lt (rnd (2 / 5)) (rnd (7 / 10))"
  by (simp_all add: lit_02 lit_04 lit_07)

lemma distinct_chain: "distinct ALGORITHM_CHAIN"
  by (simp add: ALGORITHM_CHAIN_def)

section \<open>The negotiator's bands\<close>

lemma band0: "fl_gt v (rnd (7 / 10)) \<Longrightarrow> negotiate_algorithm v = ALGORITHM_CHAIN ! 0"
  by (simp add: negotiate_algorithm_def)

lemma band1:
  assumes "fl_gt v (rnd (2 / 5))" and "fl_le v (rnd (7 / 10))"
  shows "negotiate_algorithm v = ALGORITHM_CHAIN ! 1"
  using assms fl_le_not_gt [of v "rnd (7 / 10)"] by (simp add: negotiate_algorithm_def)

lemma band2:
  assumes "fl_gt v (rnd (1 / 5))" and "fl_le v (rnd (2 / 5))"
  shows "negotiate_algorithm v = ALGORITHM_CHAIN ! 2"
proof -
  have "\<not> fl_gt v (rnd (2 / 5))" using assms(2) by (rule fl_le_not_gt)
  moreover have "fl_lt v (rnd (7 / 10))"
    using assms(2) lit_order(2) by (rule fl_le_lt_trans)
  then have "\<not> fl_gt v (rnd (7 / 10))" unfolding fl_gt_def by (rule fl_lt_asym)
  ultimately show ?thesis using assms(1) by (simp add: negotiate_algorithm_def)
qed

lemma band3:
  assumes "fl_le v (rnd (1 / 5))"
  shows "negotiate_algorithm v = ALGORITHM_CHAIN ! 3"
proof -
  have "\<not> fl_gt v (rnd (1 / 5))" using assms by (rule fl_le_not_gt)
  moreover have lt4: "fl_lt v (rnd (2 / 5))"
    using assms lit_order(1) by (rule fl_le_lt_trans)
  then have "\<not> fl_gt v (rnd (2 / 5))" unfolding fl_gt_def by (rule fl_lt_asym)
  moreover have "fl_lt v (rnd (7 / 10))"
    using lt4 lit_order(2) by (cases v) (auto simp: lit_04 lit_07)
  then have "\<not> fl_gt v (rnd (7 / 10))" unfolding fl_gt_def by (rule fl_lt_asym)
  ultimately show ?thesis by (simp add: negotiate_algorithm_def)
qed

lemma b64_075: "binary64 (3 / 4) = 3 / 4"
  by code_simp

lemma b64_05: "binary64 (1 / 2) = 1 / 2"
  by code_simp

lemma b64_03: "binary64 (3 / 10) = 5404319552844595 / 18014398509481984"
  by code_simp

lemma b64_01: "binary64 (1 / 10) = 3602879701896397 / 36028797018963968"
  by code_simp

lemma point_075: "fl_gt (rnd (3 / 4)) (rnd (7 / 10))"
  by (simp add: fl_gt_def rnd_small b64_075 b64_07)

lemma point_05: "fl_gt (rnd (1 / 2)) (rnd (2 / 5))" "fl_le (rnd (1 / 2)) (rnd (7 / 10))"
  by (simp_all add: fl_gt_def rnd_small b64_05 b64_04 b64_07)

lemma point_03: "fl_gt (rnd (3 / 10)) (rnd (1 / 5))" "fl_le (rnd (3 / 10)) (rnd (2 / 5))"
  by (simp_all add: fl_gt_def rnd_small b64_03 b64_02 b64_04)

lemma point_01: "fl_le (rnd (1 / 10)) (rnd (1 / 5))"
  by (simp add: rnd_small b64_01 b64_02)

lemma point_07: "fl_gt (rnd (7 / 10)) (rnd (2 / 5))" "fl_le (rnd (7 / 10)) (rnd (7 / 10))"
  by (simp_all add: fl_gt_def rnd_small b64_04 b64_07)

text \<open>
  C3. For every float \<open>v\<close> (finite, infinite or NaN), \<open>negotiate_algorithm\<close> returns
  entry 0 of the chain when \<open>v > 0.7\<close>, entry 1 when \<open>0.4 < v \<le> 0.7\<close>, entry 2 when
  \<open>0.2 < v \<le> 0.4\<close> and entry 3 when \<open>v \<le> 0.2\<close>; the literals are the floats the
  source writes and the comparisons are float comparisons. In particular it returns
  entry 0 at 0.75, entry 1 at 0.5, entry 2 at 0.3, entry 3 at 0.1, and entry 1 at the
  boundary 0.7. The four entries are pairwise different (\<open>distinct_chain\<close>), so the
  index is the rank.
\<close>

theorem negotiate_bands:
  "(fl_gt v (rnd (7 / 10)) \<longrightarrow> negotiate_algorithm v = ALGORITHM_CHAIN ! 0) \<and>
   (fl_gt v (rnd (2 / 5)) \<and> fl_le v (rnd (7 / 10)) \<longrightarrow>
      negotiate_algorithm v = ALGORITHM_CHAIN ! 1) \<and>
   (fl_gt v (rnd (1 / 5)) \<and> fl_le v (rnd (2 / 5)) \<longrightarrow>
      negotiate_algorithm v = ALGORITHM_CHAIN ! 2) \<and>
   (fl_le v (rnd (1 / 5)) \<longrightarrow> negotiate_algorithm v = ALGORITHM_CHAIN ! 3) \<and>
   negotiate_algorithm (rnd (3 / 4)) = ALGORITHM_CHAIN ! 0 \<and>
   negotiate_algorithm (rnd (1 / 2)) = ALGORITHM_CHAIN ! 1 \<and>
   negotiate_algorithm (rnd (3 / 10)) = ALGORITHM_CHAIN ! 2 \<and>
   negotiate_algorithm (rnd (1 / 10)) = ALGORITHM_CHAIN ! 3 \<and>
   negotiate_algorithm (rnd (7 / 10)) = ALGORITHM_CHAIN ! 1"
  using band0 [of v] band1 [of v] band2 [of v] band3 [of v]
    band0 [OF point_075] band1 [OF point_05] band2 [OF point_03] band3 [OF point_01]
    band1 [OF point_07]
  by blast

theorem negotiate_bands_witness:
  "fl_gt (rnd (3 / 4)) (rnd (7 / 10)) \<and>
   negotiate_algorithm (rnd (3 / 4)) = ALGORITHM_CHAIN ! 0 \<and>
   fl_gt (rnd (1 / 2)) (rnd (2 / 5)) \<and> fl_le (rnd (1 / 2)) (rnd (7 / 10)) \<and>
   negotiate_algorithm (rnd (1 / 2)) = ALGORITHM_CHAIN ! 1 \<and>
   fl_gt (rnd (3 / 10)) (rnd (1 / 5)) \<and> fl_le (rnd (3 / 10)) (rnd (2 / 5)) \<and>
   negotiate_algorithm (rnd (3 / 10)) = ALGORITHM_CHAIN ! 2 \<and>
   fl_le (rnd (1 / 10)) (rnd (1 / 5)) \<and>
   negotiate_algorithm (rnd (1 / 10)) = ALGORITHM_CHAIN ! 3"
  using negotiate_bands [of "rnd (3 / 4)"] negotiate_bands [of "rnd (1 / 2)"]
    negotiate_bands [of "rnd (3 / 10)"] negotiate_bands [of "rnd (1 / 10)"]
    point_075 point_05 point_03 point_01
  by blast

section \<open>The coherence stays in the unit interval\<close>

lemma clamp_in_unit: "in_unit (py_max (Flt 0) (py_min (Flt 1) x))"
  by (cases x) (auto simp: in_unit_def py_max_def py_min_def fl_gt_def)

lemma step_in_unit: "in_unit (coherence (snd (step s sigma z)))"
  by (simp add: step_def Let_def clamp_in_unit)

lemma steps_in_unit: "in_unit (coherence s) \<Longrightarrow> in_unit (coherence (steps s xs))"
proof (induction xs arbitrary: s)
  case Nil
  then show ?case by simp
next
  case (Cons x xs)
  obtain sigma z where x: "x = (sigma, z)" by (cases x)
  have "in_unit (coherence (snd (step s sigma z)))" by (rule step_in_unit)
  then show ?case unfolding x by (simp add: Cons.IH)
qed

text \<open>
  C5. Starting from a simulator whose coherence is in \<open>[0, 1]\<close>, the coherence after
  any run of \<open>step\<close> calls is in \<open>[0, 1]\<close> (and so is not a NaN). The run is any
  list of noise magnitudes and samples, and the decay rate is any float: the bounds
  hold in particular for decay rates in \<open>(0, 1)\<close> and noise magnitudes \<open>\<ge> 0\<close>.
\<close>

theorem coherence_bounds:
  "in_unit (coherence s) \<Longrightarrow> in_unit (coherence (steps s xs))"
  by (rule steps_in_unit)

theorem coherence_bounds_witness:
  "in_unit (coherence (simulator_init (Flt 1) (Flt (1 / 2)))) \<and>
   in_unit (coherence (steps (simulator_init (Flt 1) (Flt (1 / 2)))
      [(Flt (1 / 4), 1), (Flt (1 / 4), - 2)]))"
proof -
  have h: "in_unit (coherence (simulator_init (Flt 1) (Flt (1 / 2))))"
    by (simp add: simulator_init_def in_unit_def)
  show ?thesis using h coherence_bounds [OF h] by blast
qed

section \<open>Rounding stays in the unit interval\<close>

lemma ilog2_le0:
  assumes "0 < q" and "q \<le> 1"
  shows "ilog2 q \<le> 0"
proof -
  obtain n d where nd: "quotient_of q = (n, d)" by (cases "quotient_of q")
  have d: "0 < d" using nd by (rule quotient_of_denom_pos)
  have q: "q = of_int n / of_int d" using nd by (rule quotient_of_div)
  have "n \<le> d" using assms(2) d unfolding q by (simp add: divide_le_eq)
  then have "bitlen n \<le> bitlen d"
    unfolding bitlen_def by (simp add: floorlog_mono)
  then show ?thesis unfolding ilog2_def nd by (simp add: Let_def)
qed

lemma round_half_even_le:
  assumes "x \<le> of_int n"
  shows "round_half_even x \<le> n"
proof -
  have f: "\<lfloor>x\<rfloor> \<le> n" using assms by (simp add: floor_le_iff) 
  show ?thesis
  proof (cases "\<lfloor>x\<rfloor> = n")
    case True
    then have "x - of_int \<lfloor>x\<rfloor> \<le> 0" using assms by simp
    then have "x - of_int \<lfloor>x\<rfloor> < 1 / 2" by linarith
    then show ?thesis using True by (simp add: round_half_even_def Let_def)
  next
    case False
    with f have "\<lfloor>x\<rfloor> + 1 \<le> n" by linarith
    then show ?thesis using f by (simp add: round_half_even_def Let_def)
  qed
qed

lemma round_half_even_nonneg: "0 \<le> x \<Longrightarrow> 0 \<le> round_half_even x"
  by (simp add: round_half_even_def Let_def)

lemma binary64_unit:
  assumes "0 \<le> q" and "q \<le> 1"
  shows "0 \<le> binary64 q \<and> binary64 q \<le> 1"
proof (cases "q = 0")
  case True
  then show ?thesis by (simp add: binary64_def)
next
  case False
  with assms have pos: "0 < q" by simp
  define e where "e = max (ilog2 q) (- 1022)"
  define ulp :: rat where "ulp = 2 powi (e - 52)"
  define m where "m = round_half_even (q / ulp)"
  have b: "binary64 q = of_int m * ulp"
    using pos by (simp add: binary64_def Let_def e_def ulp_def m_def)
  have e0: "e \<le> 0" using ilog2_le0 [OF pos assms(2)] by (simp add: e_def)
  have ulp_pos: "0 < ulp" by (simp add: ulp_def)
  define N :: int where "N = 2 ^ nat (52 - e)"
  have "ulp = 1 / 2 powi (52 - e)"
    unfolding ulp_def by (simp add: power_int_minus_divide [symmetric])
  also have "(2::rat) powi (52 - e) = of_int N"
    using e0 by (simp add: N_def power_int_def)
  finally have ulpN: "ulp = 1 / of_int N" .
  have Npos: "0 < N" by (simp add: N_def)
  have "q / ulp = q * of_int N" by (simp add: ulpN)
  also have "\<dots> \<le> of_int N" using assms(2) Npos by (simp add: mult_le_cancel_right1)
  finally have "m \<le> N" unfolding m_def by (rule round_half_even_le)
  then have "of_int m * ulp \<le> 1" using Npos by (simp add: ulpN divide_le_eq)
  moreover have "0 \<le> m" unfolding m_def
    using pos ulp_pos by (intro round_half_even_nonneg) simp
  then have "0 \<le> of_int m * ulp" using ulp_pos by simp
  ultimately show ?thesis unfolding b by simp
qed



lemma max_min_is_clamp:
  "x \<noteq> NaN \<Longrightarrow> py_max (Flt 0) (py_min (Flt 1) x) = clamp x (Flt 0) (Flt 1)"
  by (cases x) (auto simp: py_max_def py_min_def clamp_def fl_gt_def)

lemma rnd_not_NaN: "rnd q \<noteq> NaN"
  by (simp add: rnd_def)

lemma fl_add_Flt_not_NaN: "y \<noteq> NaN \<Longrightarrow> fl_add (Flt a) y \<noteq> NaN"
  by (cases y) (simp_all add: rnd_not_NaN)

lemma gauss_finite_not_NaN: "gauss (Flt 0) (Flt sg) z \<noteq> NaN"
  by (simp add: gauss_def rnd_not_NaN fl_add_Flt_not_NaN)

lemma decay_factor:
  assumes "0 < d" and "d < 1"
  shows "\<exists>r. fl_sub (Flt 1) (Flt d) = Flt r \<and> 0 \<le> r \<and> r \<le> 1"
proof -
  have "fl_sub (Flt 1) (Flt d) = rnd (1 - d)" by (simp add: fl_sub_def)
  also have "\<dots> = Flt (binary64 (1 - d))" using assms by (intro rnd_small) simp
  finally show ?thesis using binary64_unit [of "1 - d"] assms by simp
qed

lemma decayed_finite:
  assumes "0 \<le> v" "v \<le> 1" "0 < d" "d < 1"
  shows "\<exists>c. fl_mul (Flt v) (fl_sub (Flt 1) (Flt d)) = Flt c"
proof -
  obtain r where r: "fl_sub (Flt 1) (Flt d) = Flt r" "0 \<le> r" "r \<le> 1"
    using decay_factor [OF assms(3,4)] by blast
  have "0 \<le> v * r" using assms(1) r(2) by simp
  moreover have "v * r \<le> 1 * 1" using assms(1,2) r(2,3) by (intro mult_mono) simp_all
  ultimately have "\<bar>v * r\<bar> \<le> 2" by simp
  then show ?thesis unfolding r(1) by (simp add: rnd_small)
qed

lemma b64_09: "binary64 (9 / 10) = 8106479329266893 / 9007199254740992"
  by code_simp

lemma b64_1m01: "binary64 (1 - 3602879701896397 / 36028797018963968) = 8106479329266893 / 9007199254740992"
  by code_simp

lemma b64_09_idem: "binary64 (8106479329266893 / 9007199254740992) = 8106479329266893 / 9007199254740992"
  by code_simp

lemma b64_0: "binary64 0 = 0"
  by (simp add: binary64_def)

lemma lit_09: "rnd (9 / 10) = Flt (8106479329266893 / 9007199254740992)"
  by (simp add: rnd_small b64_09)

lemma lit_01: "rnd (1 / 10) = Flt (3602879701896397 / 36028797018963968)"
  by (simp add: rnd_small b64_01)

lemma round4_09:
  "round_half_even (8106479329266893 / 9007199254740992 * 10 ^ 4) = 9000"
  by code_simp

lemma py_round_09: "py_round (rnd (9 / 10)) 4 = rnd (9 / 10)"
proof -
  have "py_round (rnd (9 / 10)) 4 = rnd (of_int 9000 / 10 ^ 4)"
    by (simp only: lit_09 py_round.simps round4_09)
  also have "(of_int 9000 / 10 ^ 4 :: rat) = 9 / 10" by simp
  finally show ?thesis .
qed

lemma no_noise: "gauss (Flt 0) (Flt 0) z = Flt 0"
  by (simp add: gauss_def rnd_small b64_0)

lemma decayed_09: "fl_mul (Flt 1) (fl_sub (Flt 1) (rnd (1 / 10))) = rnd (9 / 10)"
proof -
  have "fl_sub (Flt 1) (rnd (1 / 10)) = rnd (1 - 3602879701896397 / 36028797018963968)"
    by (simp only: lit_01 fl_sub_def fl_neg.simps fl_add.simps) simp
  also have "\<dots> = Flt (binary64 (1 - 3602879701896397 / 36028797018963968))"
    by (rule rnd_small) simp
  also have "\<dots> = rnd (9 / 10)" by (simp only: b64_1m01 lit_09)
  finally have "fl_mul (Flt 1) (fl_sub (Flt 1) (rnd (1 / 10)))
      = rnd (1 * (8106479329266893 / 9007199254740992))"
    by (simp only: lit_09 fl_mul.simps)
  also have "\<dots> = rnd (8106479329266893 / 9007199254740992)" by simp
  also have "\<dots> = Flt (binary64 (8106479329266893 / 9007199254740992))"
    by (rule rnd_small) simp
  also have "\<dots> = rnd (9 / 10)" by (simp only: b64_09_idem lit_09)
  finally show ?thesis .
qed

lemma sum_09: "fl_add (rnd (9 / 10)) (Flt 0) = rnd (9 / 10)"
proof -
  have "fl_add (rnd (9 / 10)) (Flt 0) = rnd (8106479329266893 / 9007199254740992 + 0)"
    by (simp only: lit_09 fl_add.simps)
  also have "\<dots> = rnd (8106479329266893 / 9007199254740992)" by simp
  also have "\<dots> = Flt (binary64 (8106479329266893 / 9007199254740992))"
    by (rule rnd_small) simp
  also have "\<dots> = rnd (9 / 10)" by (simp only: b64_09_idem lit_09)
  finally show ?thesis .
qed

lemma clamp_09: "py_max (Flt 0) (py_min (Flt 1) (rnd (9 / 10))) = rnd (9 / 10)"
  by (simp add: lit_09 py_max_def py_min_def fl_gt_def)

lemma one_tick_no_noise:
  "step (simulator_init (Flt 1) (rnd (1 / 10))) (Flt 0) z =
     (rnd (9 / 10), \<lparr>coherence = rnd (9 / 10), decay_rate = rnd (1 / 10),
        history = [rnd (9 / 10)], tick = 1\<rparr>)"
  by (simp only: step_def simulator_init_def Let_def simulator.simps no_noise decayed_09
        sum_09 clamp_09 py_round_09) simp


section \<open>The transition of one tick\<close>

lemma step_fields:
  "step s sigma z = (c, s') \<Longrightarrow>
     coherence s' = c \<and> decay_rate s' = decay_rate s \<and> tick s' = tick s + 1 \<and>
     history s' = history s @ [py_round c 4]"
  by (auto simp: step_def Let_def)

text \<open>
  C4. For a simulator whose coherence is a float in \<open>[0, 1]\<close> and whose decay rate is
  a float in \<open>(0, 1)\<close>, and for every finite noise magnitude and every sample, one call
  of \<open>step\<close> returns \<open>clamp(value * (1 - d) + gauss(0, \<sigma>), 0.0, 1.0)\<close> in float
  arithmetic, stores it as the new coherence and increments \<open>tick\<close> by one. Starting
  from value \<open>1.0\<close> with decay \<open>0.1\<close> and noise magnitude \<open>0\<close>, the value after one
  tick is the float \<open>0.9\<close> exactly, whatever the sample.
\<close>

theorem step_transition:
  assumes "coherence s = Flt v" and "0 \<le> v" and "v \<le> 1"
    and "decay_rate s = Flt d" and "0 < d" and "d < 1"
  shows "fst (step s (Flt sg) z) = spec_transition (coherence s) (decay_rate s) (Flt sg) z \<and>
         coherence (snd (step s (Flt sg) z)) = fst (step s (Flt sg) z) \<and>
         tick (snd (step s (Flt sg) z)) = tick s + 1 \<and>
         fst (step (simulator_init (Flt 1) (rnd (1 / 10))) (Flt 0) z) = rnd (9 / 10)"
proof -
  obtain c where c: "fl_mul (Flt v) (fl_sub (Flt 1) (Flt d)) = Flt c"
    using decayed_finite [OF assms(2,3,5,6)] by blast
  have "fl_add (Flt c) (gauss (Flt 0) (Flt sg) z) \<noteq> NaN"
    by (rule fl_add_Flt_not_NaN) (rule gauss_finite_not_NaN)
  then have "py_max (Flt 0) (py_min (Flt 1) (fl_add (Flt c) (gauss (Flt 0) (Flt sg) z)))
      = clamp (fl_add (Flt c) (gauss (Flt 0) (Flt sg) z)) (Flt 0) (Flt 1)"
    by (rule max_min_is_clamp)
  then have "fst (step s (Flt sg) z) = spec_transition (coherence s) (decay_rate s) (Flt sg) z"
    by (simp add: step_def Let_def spec_transition_def assms(1,4) c)
  moreover have "coherence (snd (step s (Flt sg) z)) = fst (step s (Flt sg) z)"
    by (simp add: step_def Let_def)
  moreover have "tick (snd (step s (Flt sg) z)) = tick s + 1"
    by (simp add: step_def Let_def)
  moreover have "fst (step (simulator_init (Flt 1) (rnd (1 / 10))) (Flt 0) z) = rnd (9 / 10)"
    by (simp only: one_tick_no_noise fst_conv)
  ultimately show ?thesis by blast
qed

theorem step_transition_witness:
  "coherence (simulator_init (Flt 1) (rnd (1 / 10))) = Flt 1 \<and> (0::rat) \<le> 1 \<and> (1::rat) \<le> 1 \<and>
   decay_rate (simulator_init (Flt 1) (rnd (1 / 10)))
     = Flt (3602879701896397 / 36028797018963968) \<and>
   (0::rat) < 3602879701896397 / 36028797018963968 \<and>
   (3602879701896397 / 36028797018963968 :: rat) < 1 \<and>
   fst (step (simulator_init (Flt 1) (rnd (1 / 10))) (Flt 0) 1)
     = spec_transition (coherence (simulator_init (Flt 1) (rnd (1 / 10))))
         (decay_rate (simulator_init (Flt 1) (rnd (1 / 10)))) (Flt 0) 1 \<and>
   tick (snd (step (simulator_init (Flt 1) (rnd (1 / 10))) (Flt 0) 1))
     = tick (simulator_init (Flt 1) (rnd (1 / 10))) + 1 \<and>
   fst (step (simulator_init (Flt 1) (rnd (1 / 10))) (Flt 0) 1) = rnd (9 / 10)"
proof -
  have h1: "coherence (simulator_init (Flt 1) (rnd (1 / 10))) = Flt 1"
    by (simp add: simulator_init_def)
  have h2: "(0::rat) \<le> 1" and h3: "(1::rat) \<le> 1" by simp_all
  have h4: "decay_rate (simulator_init (Flt 1) (rnd (1 / 10)))
      = Flt (3602879701896397 / 36028797018963968)"
    by (simp add: simulator_init_def lit_01)
  have h5: "(0::rat) < 3602879701896397 / 36028797018963968"
    and h6: "(3602879701896397 / 36028797018963968 :: rat) < 1" by simp_all
  show ?thesis
    using h1 h2 h3 h4 h5 h6 step_transition [OF h1 h2 h3 h4 h5 h6, of 0 1] by blast
qed

section \<open>Bookkeeping of the simulator\<close>

lemma steps_append: "steps s (xs @ ys) = steps (steps s xs) ys"
  by (induction xs arbitrary: s) auto

lemma steps_snoc: "steps s (xs @ [(sigma, z)]) = snd (step (steps s xs) sigma z)"
  by (simp add: steps_append)

lemma tick_steps: "tick (steps s xs) = tick s + int (length xs)"
proof (induction xs arbitrary: s)
  case Nil
  then show ?case by simp
next
  case (Cons x xs)
  obtain sigma z where x: "x = (sigma, z)" by (cases x)
  show ?case unfolding x by (simp add: Cons.IH step_def Let_def)
qed

lemma history_steps:
  "history (steps s xs) =
     history s @ map (\<lambda>k. py_round (coherence (steps s (take (Suc k) xs))) 4) [0..<length xs]"
proof (induction xs rule: rev_induct)
  case Nil
  then show ?case by simp
next
  case (snoc x xs)
  obtain sigma z where x: "x = (sigma, z)" by (cases x)
  have "history (steps s (xs @ [x])) =
      history (steps s xs) @ [py_round (coherence (steps s (xs @ [x]))) 4]"
    unfolding x steps_snoc by (simp add: step_def Let_def)
  then show ?case by (simp add: snoc.IH)
qed

lemma readers_keep_object:
  "snd (coherence_bar s) = s" "snd (is_coherent s threshold) = s"
  by (simp_all add: coherence_bar_def is_coherent_def Let_def split: sum.splits)

lemma run_is_steps: "run s cs = steps s (step_args cs)"
proof (induction cs arbitrary: s)
  case Nil
  then show ?case by simp
next
  case (Cons c cs)
  then show ?case by (cases c) (simp_all add: readers_keep_object)
qed

text \<open>
  C10. Take a freshly constructed simulator and any sequence of method calls on it
  (\<open>step\<close>, \<open>coherence_bar\<close>, \<open>is_coherent\<close>). The object is the one that the
  \<open>step\<close> calls of the sequence alone produce: no other method changes coherence,
  tick or history. With \<open>n\<close> calls of \<open>step\<close> in the sequence, \<open>tick\<close> is \<open>n\<close>,
  the history has \<open>n\<close> entries, and entry \<open>k\<close> is the coherence right after step
  \<open>k + 1\<close>, rounded to 4 decimals.
\<close>

theorem simulator_bookkeeping:
  "run (simulator_init c0 d) cs = steps (simulator_init c0 d) (step_args cs) \<and>
   tick (run (simulator_init c0 d) cs) = int (length (step_args cs)) \<and>
   length (history (run (simulator_init c0 d) cs)) = length (step_args cs) \<and>
   (\<forall>k < length (step_args cs).
      history (run (simulator_init c0 d) cs) ! k =
        py_round (coherence (steps (simulator_init c0 d) (take (Suc k) (step_args cs)))) 4)"
  by (simp add: run_is_steps tick_steps history_steps simulator_init_def)

theorem simulator_bookkeeping_witness:
  "(1::nat) < length (step_args [Step (Flt 0) 0, CoherenceBar, Step (Flt (1 / 4)) 1]) \<and>
   history (run (simulator_init (Flt 1) (Flt (1 / 2)))
       [Step (Flt 0) 0, CoherenceBar, Step (Flt (1 / 4)) 1]) ! 1 =
     py_round (coherence (steps (simulator_init (Flt 1) (Flt (1 / 2)))
       (take (Suc 1) (step_args [Step (Flt 0) 0, CoherenceBar, Step (Flt (1 / 4)) 1])))) 4"
proof -
  have h: "(1::nat) < length (step_args [Step (Flt 0) 0, CoherenceBar, Step (Flt (1 / 4)) 1])"
    by simp
  show ?thesis
    using h simulator_bookkeeping [of "Flt 1" "Flt (1 / 2)"
        "[Step (Flt 0) 0, CoherenceBar, Step (Flt (1 / 4)) 1]"]
    by blast
qed

section \<open>No validation, no error\<close>

lemma negotiate_in_chain: "negotiate_algorithm v \<in> set ALGORITHM_CHAIN"
  by (simp add: negotiate_algorithm_def ALGORITHM_CHAIN_def)

lemma b64_15: "binary64 (3 / 2) = 3 / 2"
  by code_simp

text \<open>
  C9, as stated, fails: a decay rate of \<open>-0.5\<close> is outside the range of the
  specification, yet the constructor returns an object that holds it, and a later
  \<open>step\<close> runs on that object and returns \<open>1.0\<close>.
\<close>

theorem no_validation_counterexample:
  "\<not> valid_config (Flt 1) (Flt (- 1 / 2)) \<and>
   decay_rate (simulator_init (Flt 1) (Flt (- 1 / 2))) = Flt (- 1 / 2) \<and>
   fst (step (simulator_init (Flt 1) (Flt (- 1 / 2))) (Flt 0) 0) = Flt 1"
  by (simp add: valid_config_def simulator_init_def step_def Let_def no_noise fl_sub_def
      rnd_small b64_15 py_max_def py_min_def fl_gt_def)

text \<open>
  C9, amended. The constructor validates nothing: for every pair of floats, in range
  or not, it returns an object holding exactly these values, with tick 0 and an empty
  history. On every object and for every noise magnitude and sample, \<open>step\<close> returns
  a float in \<open>[0, 1]\<close> and stores it; for every float, NaN and infinities included,
  \<open>negotiate_algorithm\<close> returns an entry of the chain. None of the three has a
  failure branch.
\<close>

theorem total_without_validation:
  "coherence (simulator_init c d) = c \<and> decay_rate (simulator_init c d) = d \<and>
   tick (simulator_init c d) = 0 \<and> history (simulator_init c d) = [] \<and>
   in_unit (fst (step s sigma z)) \<and>
   coherence (snd (step s sigma z)) = fst (step s sigma z) \<and>
   negotiate_algorithm v \<in> set ALGORITHM_CHAIN"
  using step_in_unit [of s sigma z] negotiate_in_chain [of v]
  by (simp add: simulator_init_def step_def Let_def)

section \<open>The switch mark of the timeline\<close>

lemma coherence_bar_ok:
  assumes "in_unit (coherence s)"
  shows "\<exists>bar. coherence_bar s = (Inr bar, s)"
proof -
  obtain c where c: "coherence s = Flt c" "0 \<le> c" "c \<le> 1"
    using assms by (cases "coherence s") (auto simp: in_unit_def)
  have "\<bar>c * 40\<bar> \<le> 1000" using c(2,3) by simp
  then have "fl_mul (coherence s) (Flt 40) = Flt (binary64 (c * 40))"
    by (simp add: c(1) rnd_small)
  then show ?thesis by (simp add: coherence_bar_def Let_def)
qed

lemma chain_name_list:
  "map name ALGORITHM_CHAIN = [''ML-KEM-768'', ''ML-KEM-1024'', ''ML-DSA-65+AES'', ''X25519+AES256'']"
  by (simp add: ALGORITHM_CHAIN_def)

lemma chain_names_distinct: "distinct (map name ALGORITHM_CHAIN)"
  unfolding chain_name_list by simp

lemma chain_names:
  assumes "a \<in> set ALGORITHM_CHAIN" and "b \<in> set ALGORITHM_CHAIN"
  shows "(name a = name b) = (a = b)" and "name a \<noteq> []"
proof -
  have "inj_on name (set ALGORITHM_CHAIN)"
    using chain_names_distinct by (simp add: distinct_map)
  then show "(name a = name b) = (a = b)" using assms by (auto dest: inj_onD)
  have "name a \<in> set (map name ALGORITHM_CHAIN)" using assms(1) by simp
  then show "name a \<noteq> []" unfolding chain_name_list by auto
qed

lemma marks_from_Cons:
  assumes "row_switch r = (Some (name (row_algo r)) \<noteq> previous \<and> truthy previous)"
    and "row_algo r = negotiate_algorithm (row_coherence r)"
    and "marks_from (Some (name (row_algo r))) rows"
  shows "marks_from previous (r # rows)"
proof -
  have r: "row_algo r \<in> set ALGORITHM_CHAIN" unfolding assms(2) by (rule negotiate_in_chain)
  have first: "rows \<noteq> [] \<Longrightarrow> row_switch (rows ! 0) = (row_algo (rows ! 0) \<noteq> row_algo r)"
  proof -
    assume ne: "rows \<noteq> []"
    then have "0 < length rows" by simp
    with assms(3) have "row_algo (rows ! 0) = negotiate_algorithm (row_coherence (rows ! 0))"
      unfolding marks_from_def by blast
    then have "row_algo (rows ! 0) \<in> set ALGORITHM_CHAIN" by (simp add: negotiate_in_chain)
    with r ne assms(3) show ?thesis
      unfolding marks_from_def by (simp add: chain_names)
  qed
  have "row_switch ((r # rows) ! Suc k) = (row_algo ((r # rows) ! Suc k) \<noteq> row_algo ((r # rows) ! k))"
    if "Suc k < length (r # rows)" for k
  proof (cases k)
    case 0
    with that first show ?thesis by auto
  next
    case (Suc j)
    with that assms(3) show ?thesis unfolding marks_from_def by simp
  qed
  moreover have "row_algo ((r # rows) ! k) = negotiate_algorithm (row_coherence ((r # rows) ! k))"
    if "k < length (r # rows)" for k
    using that assms(2,3) unfolding marks_from_def by (cases k) auto
  ultimately show ?thesis using assms(1) unfolding marks_from_def by simp
qed

lemma timeline_loop_marks:
  "\<exists>rows f. timeline_loop noise_std zs i n field previous = Inr (rows, f) \<and>
      marks_from previous rows \<and> length rows \<le> n"
proof (induction n arbitrary: i field previous)
  case 0
  then show ?case by (simp add: marks_from_def)
next
  case (Suc n)
  obtain c field1 where st: "step field noise_std (zs i) = (c, field1)"
    by (cases "step field noise_std (zs i)")
  have "in_unit (coherence field1)" using step_in_unit [of field noise_std "zs i"] st by simp
  then obtain bar where bar: "coherence_bar field1 = (Inr bar, field1)"
    using coherence_bar_ok by blast
  define algo where "algo = negotiate_algorithm c"
  define row where "row = \<lparr>row_step = i, row_bar = bar, row_coherence = c, row_algo = algo,
      row_switch = (Some (name algo) \<noteq> previous \<and> truthy previous)\<rparr>"
  obtain rows f where rec: "timeline_loop noise_std zs (Suc i) n field1 (Some (name algo)) = Inr (rows, f)"
      "marks_from (Some (name algo)) rows" "length rows \<le> n"
    using Suc.IH by blast
  have one: "marks_from previous [row]"
    by (rule marks_from_Cons) (simp_all add: row_def algo_def marks_from_def)
  have more: "marks_from previous (row # rows)"
    by (rule marks_from_Cons) (simp_all add: row_def algo_def rec(2) [unfolded algo_def])
  show ?case
  proof (cases "fl_lt c (rnd (1 / 20))")
    case True
    then have "timeline_loop noise_std zs i (Suc n) field previous = Inr ([row], field1)"
      by (simp add: st bar Let_def row_def algo_def)
    with one show ?thesis by simp
  next
    case False
    then have "timeline_loop noise_std zs i (Suc n) field previous = Inr (row # rows, f)"
      using rec(1) by (simp add: st bar Let_def row_def algo_def)
    with more rec(3) show ?thesis by simp
  qed
qed

text \<open>
  C8. \<open>negotiate_algorithm\<close> returns the descriptor; the signal that the suite
  changed is the \<open>ALGORITHM SWITCH\<close> mark that \<open>run_decoherence_timeline\<close> puts on
  a line, computed from the one selection it keeps in \<open>previous_algo\<close>. Every run
  completes without an exception; the first line never carries the mark; every later
  line carries it exactly when its descriptor differs from the descriptor of the line
  before; and the descriptor of each line is the negotiator's choice for the coherence
  of that line.
\<close>

theorem suite_change_signal:
  "\<exists>rows h. run_decoherence_timeline n noise_std zs = Inr (rows, h) \<and>
     (rows \<noteq> [] \<longrightarrow> \<not> row_switch (rows ! 0)) \<and>
     (\<forall>k. Suc k < length rows \<longrightarrow>
        row_switch (rows ! Suc k) = (row_algo (rows ! Suc k) \<noteq> row_algo (rows ! k))) \<and>
     (\<forall>k < length rows. row_algo (rows ! k) = negotiate_algorithm (row_coherence (rows ! k)))"
proof -
  obtain rows f where
    "timeline_loop noise_std zs 0 (nat n) (simulator_init (Flt 1) (rnd (3 / 50))) None = Inr (rows, f)"
    "marks_from None rows"
    using timeline_loop_marks by blast
  then show ?thesis unfolding run_decoherence_timeline_def marks_from_def by simp
qed

lemma b64_006: "binary64 (3 / 50) = 1080863910568919 / 18014398509481984"
  by code_simp

lemma b64_005: "binary64 (1 / 20) = 3602879701896397 / 72057594037927936"
  by code_simp

lemma lit_006: "rnd (3 / 50) = Flt (1080863910568919 / 18014398509481984)"
  by (simp add: rnd_small b64_006)

lemma lit_005: "rnd (1 / 20) = Flt (3602879701896397 / 72057594037927936)"
  by (simp add: rnd_small b64_005)

lemma saturate_up:
  assumes "coherence s = Flt 1" and "decay_rate s = rnd (3 / 50)"
  shows "fst (step s PosInf 1) = Flt 1"
proof -
  obtain c where c: "fl_mul (Flt 1) (fl_sub (Flt 1) (rnd (3 / 50))) = Flt c"
    unfolding lit_006 using decayed_finite [of 1 "1080863910568919 / 18014398509481984"]
    by auto
  show ?thesis
    by (simp add: step_def Let_def assms c gauss_def inf_times_def py_max_def py_min_def
        fl_gt_def)
qed

lemma saturate_down:
  assumes "coherence s = Flt 1" and "decay_rate s = rnd (3 / 50)"
  shows "fst (step s PosInf (- 1)) = Flt 0"
proof -
  obtain c where c: "fl_mul (Flt 1) (fl_sub (Flt 1) (rnd (3 / 50))) = Flt c"
    unfolding lit_006 using decayed_finite [of 1 "1080863910568919 / 18014398509481984"]
    by auto
  show ?thesis
    by (simp add: step_def Let_def assms c gauss_def inf_times_def py_max_def py_min_def
        fl_gt_def)
qed

lemma step_keeps_decay: "decay_rate (snd (step s sigma z)) = decay_rate s"
  by (simp add: step_def Let_def)

lemma step_coherence: "coherence (snd (step s sigma z)) = fst (step s sigma z)"
  by (simp add: step_def Let_def)

lemma two_rows:
  "\<exists>r0 r1 f. timeline_loop PosInf (\<lambda>i. if i = 0 then 1 else - 1) 0 2
       (simulator_init (Flt 1) (rnd (3 / 50))) None = Inr ([r0, r1], f) \<and>
     row_coherence r0 = Flt 1 \<and> row_coherence r1 = Flt 0"
proof -
  let ?zs = "\<lambda>i::nat. if i = 0 then 1 else - 1 :: rat"
  let ?s0 = "simulator_init (Flt 1) (rnd (3 / 50))"
  obtain c1 s1 where st1: "step ?s0 PosInf (?zs 0) = (c1, s1)" by (cases "step ?s0 PosInf (?zs 0)")
  have c1: "c1 = Flt 1"
    using saturate_up [of ?s0] st1 by (simp add: simulator_init_def)
  have s1: "coherence s1 = Flt 1" "decay_rate s1 = rnd (3 / 50)"
    using step_coherence [of ?s0 PosInf "?zs 0"] step_keeps_decay [of ?s0 PosInf "?zs 0"] st1 c1
    by (simp_all add: simulator_init_def)
  obtain bar1 where bar1: "coherence_bar s1 = (Inr bar1, s1)"
    using coherence_bar_ok [of s1] s1(1) by (auto simp: in_unit_def)
  obtain c2 s2 where st2: "step s1 PosInf (?zs 1) = (c2, s2)" by (cases "step s1 PosInf (?zs 1)")
  have c2: "c2 = Flt 0" using saturate_down [OF s1] st2 by simp
  have s2: "coherence s2 = Flt 0"
    using step_coherence [of s1 PosInf "?zs 1"] st2 c2 by simp
  obtain bar2 where bar2: "coherence_bar s2 = (Inr bar2, s2)"
    using coherence_bar_ok [of s2] s2 by (auto simp: in_unit_def)
  have go: "\<not> fl_lt c1 (rnd (1 / 20))" "fl_lt c2 (rnd (1 / 20))"
    by (simp_all add: c1 c2 lit_005)
  have "timeline_loop PosInf ?zs 1 1 s1 (Some (name (negotiate_algorithm c1)))
      = Inr ([\<lparr>row_step = 1, row_bar = bar2, row_coherence = c2,
                row_algo = negotiate_algorithm c2,
                row_switch = (Some (name (negotiate_algorithm c2)) \<noteq> Some (name (negotiate_algorithm c1))
                   \<and> truthy (Some (name (negotiate_algorithm c1))))\<rparr>], s2)"
    using st2 bar2 go(2) by (simp add: Let_def)
  then show ?thesis
    using st1 bar1 go(1) c1 c2 by (simp add: Let_def numeral_2_eq_2)
qed

lemma ends_differ: "negotiate_algorithm (Flt 0) \<noteq> negotiate_algorithm (Flt 1)"
proof -
  have "negotiate_algorithm (Flt 1) = ALGORITHM_CHAIN ! 0"
    by (rule band0) (simp add: fl_gt_def lit_07)
  moreover have "negotiate_algorithm (Flt 0) = ALGORITHM_CHAIN ! 3"
    by (rule band3) (simp add: lit_02)
  ultimately show ?thesis by (simp add: ALGORITHM_CHAIN_def)
qed

theorem suite_change_signal_witness:
  "\<exists>rows h. run_decoherence_timeline 2 PosInf (\<lambda>i. if i = 0 then 1 else - 1) = Inr (rows, h) \<and>
     rows \<noteq> [] \<and> \<not> row_switch (rows ! 0) \<and> Suc 0 < length rows \<and>
     row_algo (rows ! Suc 0) \<noteq> row_algo (rows ! 0) \<and> row_switch (rows ! Suc 0) \<and>
     row_algo (rows ! 0) = negotiate_algorithm (row_coherence (rows ! 0))"
proof -
  let ?zs = "\<lambda>i::nat. if i = 0 then 1 else - 1 :: rat"
  obtain rows h where run: "run_decoherence_timeline 2 PosInf ?zs = Inr (rows, h)"
    and first: "rows \<noteq> [] \<longrightarrow> \<not> row_switch (rows ! 0)"
    and later: "\<forall>k. Suc k < length rows \<longrightarrow>
        row_switch (rows ! Suc k) = (row_algo (rows ! Suc k) \<noteq> row_algo (rows ! k))"
    and chosen: "\<forall>k < length rows. row_algo (rows ! k) = negotiate_algorithm (row_coherence (rows ! k))"
    using suite_change_signal [of 2 PosInf ?zs] by blast
  obtain r0 r1 f where loop: "timeline_loop PosInf ?zs 0 2 (simulator_init (Flt 1) (rnd (3 / 50))) None
      = Inr ([r0, r1], f)" and c0: "row_coherence r0 = Flt 1" and c1: "row_coherence r1 = Flt 0"
    using two_rows by blast
  have rows: "rows = [r0, r1]"
    using run loop by (simp add: run_decoherence_timeline_def)
  have len: "rows \<noteq> []" "Suc 0 < length rows" "0 < length rows" by (simp_all add: rows)
  have "row_algo (rows ! 0) = negotiate_algorithm (row_coherence (rows ! 0))"
    using chosen len(3) by blast
  then have a0: "row_algo (rows ! 0) = negotiate_algorithm (Flt 1)"
    using c0 by (simp add: rows)
  have "row_algo (rows ! Suc 0) = negotiate_algorithm (row_coherence (rows ! Suc 0))"
    using chosen len(2) by blast
  then have a1: "row_algo (rows ! Suc 0) = negotiate_algorithm (Flt 0)"
    using c1 by (simp add: rows)
  have differ: "row_algo (rows ! Suc 0) \<noteq> row_algo (rows ! 0)"
    unfolding a0 a1 by (rule ends_differ)
  have mark: "row_switch (rows ! Suc 0)" using later len(2) differ by blast
  have nomark: "\<not> row_switch (rows ! 0)" using first len(1) by blast
  have sel: "row_algo (rows ! 0) = negotiate_algorithm (row_coherence (rows ! 0))"
    using chosen len(3) by blast
  from run len(1) nomark len(2) differ mark sel show ?thesis by blast
qed

section \<open>Hexadecimal text\<close>

lemma digit_hex: "n < 16 \<Longrightarrow> digit_value (hex_digit n) = Some n"
  by (auto simp: digit_value_def hex_digit_def)

lemma hex_not_space: "n < 16 \<Longrightarrow> \<not> is_space (hex_digit n)"
  by (auto simp: is_space_def hex_digit_def)

lemma nibbles: "(of_nat (unat b div 16 * 16 + unat b mod 16) :: byte) = b"
  by simp

lemma fromhex_hex: "bytes_fromhex (bytes_hex bs) = Inr bs"
proof (induction bs)
  case Nil
  then show ?case by (simp add: bytes_hex_def)
next
  case (Cons b bs)
  have hi: "unat b div 16 < 16" using unsigned_less [of b, where ?'a = nat] by simp
  have lo: "unat b mod 16 < 16" by simp
  have "bytes_hex (b # bs) = hex_digit (unat b div 16) # hex_digit (unat b mod 16) # bytes_hex bs"
    by (simp add: bytes_hex_def)
  then show ?case
    using Cons.IH by (simp add: digit_hex [OF hi] digit_hex [OF lo] hex_not_space [OF hi] nibbles)
qed

lemma hex_inj: "bytes_hex a = bytes_hex b \<Longrightarrow> a = b"
  by (metis fromhex_hex sum.inject(2))

lemma length_hex: "length (bytes_hex bs) = 2 * length bs"
  by (induction bs) (simp_all add: bytes_hex_def)

section \<open>Key derivation\<close>

lemma expand_32:
  "expand_loop h prk info 32 [[]] 1 = [[], hmac h prk (info @ [1])]"
proof -
  have "expand_loop h prk info 32 [[]] 1
      = expand_loop h prk info 32 [[], hmac h prk (info @ [1])] (1 + 1)"
    using expand_loop.simps [of h prk info 32 "[[]]" 1] by (simp del: expand_loop.simps)
  also have "\<dots> = [[], hmac h prk (info @ [1])]"
    using expand_loop.simps [of h prk info 32 "[[], hmac h prk (info @ [1])]" "1 + 1"]
    by (simp del: expand_loop.simps)
  finally show ?thesis .
qed

lemma length_hmac: "hash_correct h \<Longrightarrow> length (hmac h key msg) = 32"
  by (simp add: hmac_def Let_def hash_correct_def)

lemma derive_aes_key_value:
  assumes "hash_correct h"
  shows "derive_aes_key h shared_secret context
           = Inr (hmac h (hmac h (replicate 32 0) shared_secret) (context @ [1])) \<and>
         length (hmac h (hmac h (replicate 32 0) shared_secret) (context @ [1])) = 32"
  using length_hmac [OF assms]
  by (simp add: derive_aes_key_def hkdf_derive_def Let_def expand_32)

text \<open>
  C7. With a hash that returns 32 bytes, \<open>derive_aes_key\<close> returns, for every shared
  secret and context, exactly 32 bytes and never raises. The value is HKDF in one call:
  the extraction \<open>HMAC(salt, secret)\<close> with the 32 zero bytes that stand for the absent
  salt, then one expansion block \<open>HMAC(prk, context + b"\x01")\<close>. The key is a function
  of the secret and the context alone, so equal inputs give equal keys.
\<close>

theorem derive_key_32:
  assumes "hash_correct h"
  shows "derive_aes_key h shared_secret context
           = Inr (hmac h (hmac h (replicate 32 0) shared_secret) (context @ [1])) \<and>
         length (hmac h (hmac h (replicate 32 0) shared_secret) (context @ [1])) = 32"
  using assms by (rule derive_aes_key_value)

lemma toy_hash_correct: "hash_correct toy_hash"
  by (simp add: hash_correct_def toy_hash_def)

theorem derive_key_32_witness:
  "hash_correct toy_hash \<and>
   derive_aes_key toy_hash [1, 2, 3] default_context
     = Inr (hmac toy_hash (hmac toy_hash (replicate 32 0) [1, 2, 3]) (default_context @ [1])) \<and>
   length (hmac toy_hash (hmac toy_hash (replicate 32 0) [1, 2, 3]) (default_context @ [1])) = 32"
  using toy_hash_correct derive_key_32 [OF toy_hash_correct, of "[1, 2, 3]" default_context]
  by blast

section \<open>The round trip\<close>

lemma aad_decode:
  "bytes_decode (ascii_bytes ''icarus-telemetry-channel'') = Inr (ascii ''icarus-telemetry-channel'')"
  by (simp add: ascii_bytes_def ascii_def prepend_def)

lemma aad_encode:
  "str_encode (ascii ''icarus-telemetry-channel'') = Inr (ascii_bytes ''icarus-telemetry-channel'')"
  by (simp add: ascii_bytes_def ascii_def utf8_encode_cp_def)

lemma encrypt_payload_Inr:
  assumes "fst (encrypt_payload P aes_key plaintext rng) = Inr (nonce_hex, ciphertext_hex, aad)"
  shows "\<exists>ciphertext. aesgcm_init aes_key = Inr aes_key \<and>
           aead_encrypt P aes_key (stake 12 rng) plaintext
             (ascii_bytes ''icarus-telemetry-channel'') = Inr ciphertext \<and>
           nonce_hex = bytes_hex (stake 12 rng) \<and> ciphertext_hex = bytes_hex ciphertext \<and>
           aad = ascii ''icarus-telemetry-channel''"
  using assms
  by (auto simp: encrypt_payload_def os_urandom_def aesgcm_init_def aad_decode Let_def
      split: sum.splits if_splits)

lemma decrypt_payload_hex:
  assumes "aesgcm_init aes_key = Inr aes_key" and "str_encode aad = Inr aad_bytes"
  shows "decrypt_payload P aes_key (bytes_hex nonce) (bytes_hex ciphertext) aad =
           (case aead_decrypt P aes_key nonce ciphertext aad_bytes of
              Inr plaintext \<Rightarrow> Inr plaintext | Inl e \<Rightarrow> Inl e)"
  by (simp add: decrypt_payload_def fromhex_hex assms split: sum.splits)

text \<open>
  C1. Let the provider keep its contract for the key pair \<open>(pk, sk)\<close>: decapsulation
  with \<open>sk\<close> recovers what encapsulation against \<open>pk\<close> returned, and opening what was
  sealed returns the plaintext. Whenever the sender side (encapsulate against the hex
  public key, derive, seal) produces a record, the receiver side (decapsulate with the
  hex private key, derive with the same context, open) succeeds on that record and
  returns the sender's shared secret and the sender's plaintext, byte for byte.
\<close>

theorem hybrid_roundtrip:
  assumes kem: "kem_correct P algorithm pk sk" and aead: "aead_correct P"
    and sent: "sender_side P (bytes_hex pk) algorithm plaintext coins rng
                 = Inr (shared_secret_sender, r)"
  shows "receiver_side P (bytes_hex sk) algorithm r = Inr (shared_secret_sender, plaintext)"
proof -
  obtain kem_hex aes_key nonce_hex ciphertext_hex aad where
    enc: "sender_encapsulate P (bytes_hex pk) algorithm coins = Inr (kem_hex, shared_secret_sender)"
    and key: "derive_aes_key (sha3_256 P) shared_secret_sender default_context = Inr aes_key"
    and seal: "fst (encrypt_payload P aes_key plaintext rng) = Inr (nonce_hex, ciphertext_hex, aad)"
    and r: "r = \<lparr>kem_ciphertext = kem_hex, aes_nonce = nonce_hex,
                 aes_ciphertext = ciphertext_hex, aad_text = aad\<rparr>"
    using sent by (auto simp: sender_side_def split: sum.splits prod.splits)
  obtain ct where ct: "kem_encap P algorithm pk coins = Inr (ct, shared_secret_sender)"
    and kem_hex: "kem_hex = bytes_hex ct"
    using enc by (auto simp: sender_encapsulate_def fromhex_hex split: sum.splits prod.splits)
  have "kem_decap P algorithm sk ct = Inr shared_secret_sender"
    using kem ct unfolding kem_correct_def by blast
  then have dec: "receiver_decapsulate P (bytes_hex sk) kem_hex algorithm = Inr shared_secret_sender"
    by (simp add: receiver_decapsulate_def kem_hex fromhex_hex)
  obtain ciphertext where init: "aesgcm_init aes_key = Inr aes_key"
    and c: "aead_encrypt P aes_key (stake 12 rng) plaintext
              (ascii_bytes ''icarus-telemetry-channel'') = Inr ciphertext"
    and hexes: "nonce_hex = bytes_hex (stake 12 rng)" "ciphertext_hex = bytes_hex ciphertext"
      "aad = ascii ''icarus-telemetry-channel''"
    using encrypt_payload_Inr [OF seal] by blast
  have "aead_decrypt P aes_key (stake 12 rng) ciphertext
      (ascii_bytes ''icarus-telemetry-channel'') = Inr plaintext"
    using aead c unfolding aead_correct_def by blast
  then have "decrypt_payload P aes_key nonce_hex ciphertext_hex aad = Inr plaintext"
    unfolding hexes by (simp add: decrypt_payload_hex [OF init aad_encode])
  then show ?thesis
    by (simp add: receiver_side_def r dec key)
qed

section \<open>The small provider keeps the contract\<close>

lemma toy_fields:
  "kem_encap toy_provider a pk coins =
     (if a = ''ML-KEM-768'' then Inr (coins, toy_hash (coins @ pk)) else Inl MechanismNotSupportedError)"
  "kem_decap toy_provider a sk ct =
     (if a = ''ML-KEM-768'' then Inr (toy_hash (ct @ sk)) else Inl MechanismNotSupportedError)"
  "aead_encrypt toy_provider key nonce plaintext aad = Inr (plaintext @ toy_tag key nonce plaintext aad)"
  "aead_decrypt toy_provider key nonce ct aad =
     (if length ct < 16 then Inl InvalidTag
      else let plaintext = take (length ct - 16) ct
           in if drop (length ct - 16) ct = toy_tag key nonce plaintext aad
              then Inr plaintext else Inl InvalidTag)"
  "sha3_256 toy_provider = toy_hash"
  by (simp_all add: toy_provider_def)

lemma length_toy_tag: "length (toy_tag key nonce plaintext aad) = 16"
  by (simp add: toy_tag_def toy_hash_def)

lemma toy_kem_correct: "kem_correct toy_provider ''ML-KEM-768'' k k"
  by (simp add: kem_correct_def toy_fields)

lemma toy_open_sealed:
  "aead_decrypt toy_provider key nonce (plaintext @ toy_tag key nonce plaintext aad) aad = Inr plaintext"
  by (simp add: toy_fields(4) length_toy_tag)

lemma toy_aead_correct: "aead_correct toy_provider"
  unfolding aead_correct_def using toy_open_sealed by (auto simp: toy_fields(3))

lemma toy_sender_side:
  "\<exists>ss r. sender_side toy_provider (bytes_hex pk) ''ML-KEM-768'' plaintext coins rng = Inr (ss, r)"
proof -
  let ?ss = "toy_hash (coins @ pk)"
  let ?key = "hmac toy_hash (hmac toy_hash (replicate 32 0) ?ss) (default_context @ [1])"
  have enc: "sender_encapsulate toy_provider (bytes_hex pk) ''ML-KEM-768'' coins
      = Inr (bytes_hex coins, ?ss)"
    by (simp add: sender_encapsulate_def fromhex_hex toy_fields(1))
  have key: "derive_aes_key toy_hash ?ss default_context = Inr ?key" and len: "length ?key = 32"
    using derive_aes_key_value [OF toy_hash_correct, of ?ss default_context] by blast+
  have "\<exists>x. fst (encrypt_payload toy_provider ?key plaintext rng) = Inr x"
    by (simp add: encrypt_payload_def os_urandom_def aesgcm_init_def len toy_fields(3) aad_decode)
  then show ?thesis
    by (auto simp: sender_side_def enc key toy_fields(5) split: prod.splits)
qed

theorem hybrid_roundtrip_witness:
  "kem_correct toy_provider ''ML-KEM-768'' [1, 2, 3] [1, 2, 3] \<and> aead_correct toy_provider \<and>
   (\<exists>ss r. sender_side toy_provider (bytes_hex [1, 2, 3]) ''ML-KEM-768'' [104, 105] [9, 9]
              (sconst 7) = Inr (ss, r) \<and>
            receiver_side toy_provider (bytes_hex [1, 2, 3]) ''ML-KEM-768'' r = Inr (ss, [104, 105]))"
proof -
  obtain ss r where sent:
    "sender_side toy_provider (bytes_hex [1, 2, 3]) ''ML-KEM-768'' [104, 105] [9, 9] (sconst 7)
       = Inr (ss, r)"
    using toy_sender_side by blast
  show ?thesis
    using toy_kem_correct toy_aead_correct sent
      hybrid_roundtrip [OF toy_kem_correct toy_aead_correct sent]
    by blast
qed

section \<open>Tampering\<close>

lemma hex_104: "bytes_hex (104 # bs) = 54 # 56 # bytes_hex bs"
  by (simp add: bytes_hex_def hex_digit_def)

text \<open>
  C2, as stated, fails. A sealed record opens to its plaintext; the same record with
  the first character of its hex ciphertext replaced by \<open>z\<close> makes \<open>decrypt_payload\<close>
  raise \<open>ValueError\<close> from \<open>bytes.fromhex\<close>, before the cipher is consulted, and not
  \<open>InvalidTag\<close>.
\<close>

theorem tamper_counterexample:
  "decrypt_payload toy_provider (replicate 32 7) (bytes_hex (replicate 12 0))
     (bytes_hex ([104, 105] @ toy_tag (replicate 32 7) (replicate 12 0) [104, 105]
        (ascii_bytes ''icarus-telemetry-channel'')))
     (ascii ''icarus-telemetry-channel'') = Inr [104, 105] \<and>
   decrypt_payload toy_provider (replicate 32 7) (bytes_hex (replicate 12 0))
     (122 # tl (bytes_hex ([104, 105] @ toy_tag (replicate 32 7) (replicate 12 0) [104, 105]
        (ascii_bytes ''icarus-telemetry-channel''))))
     (ascii ''icarus-telemetry-channel'') = Inl ValueError"
proof -
  have init: "aesgcm_init (replicate 32 7) = Inr (replicate 32 7)"
    by (simp add: aesgcm_init_def)
  have "decrypt_payload toy_provider (replicate 32 7) (bytes_hex (replicate 12 0))
     (bytes_hex ([104, 105] @ toy_tag (replicate 32 7) (replicate 12 0) [104, 105]
        (ascii_bytes ''icarus-telemetry-channel'')))
     (ascii ''icarus-telemetry-channel'') = Inr [104, 105]"
    by (simp only: decrypt_payload_hex [OF init aad_encode] toy_open_sealed sum.case)
  moreover have "bytes_fromhex (122 # 56 # rest) = Inl ValueError" for rest
    by (simp add: is_space_def digit_value_def)
  then have "decrypt_payload toy_provider (replicate 32 7) (bytes_hex (replicate 12 0))
     (122 # tl (bytes_hex ([104, 105] @ toy_tag (replicate 32 7) (replicate 12 0) [104, 105]
        (ascii_bytes ''icarus-telemetry-channel''))))
     (ascii ''icarus-telemetry-channel'') = Inl ValueError"
    by (simp add: decrypt_payload_def fromhex_hex hex_104)
  ultimately show ?thesis by blast
qed

text \<open>
  C2, amended. For a well-formed key and a nonce and ciphertext given as the hex of
  their bytes: whenever the cipher's tag check rejects the (altered) ciphertext or
  associated data with \<open>InvalidTag\<close>, \<open>decrypt_payload\<close> fails with \<open>InvalidTag\<close>, a
  result that carries no plaintext. And whenever \<open>decrypt_payload\<close> returns a
  plaintext, it is the plaintext that the cipher authenticated for the decoded nonce,
  ciphertext and associated data: nothing partial or unauthenticated is returned.
\<close>

theorem tamper_rejected:
  "(aesgcm_init aes_key = Inr aes_key \<and> str_encode aad = Inr aad_bytes \<and>
    aead_decrypt P aes_key nonce ciphertext aad_bytes = Inl InvalidTag
      \<longrightarrow> decrypt_payload P aes_key (bytes_hex nonce) (bytes_hex ciphertext) aad = Inl InvalidTag) \<and>
   (decrypt_payload P aes_key nonce_hex ciphertext_hex aad = Inr plaintext
      \<longrightarrow> (\<exists>n c a. bytes_fromhex nonce_hex = Inr n \<and> bytes_fromhex ciphertext_hex = Inr c \<and>
             str_encode aad = Inr a \<and> aead_decrypt P aes_key n c a = Inr plaintext))"
proof -
  have "decrypt_payload P aes_key (bytes_hex nonce) (bytes_hex ciphertext) aad = Inl InvalidTag"
    if "aesgcm_init aes_key = Inr aes_key" "str_encode aad = Inr aad_bytes"
      "aead_decrypt P aes_key nonce ciphertext aad_bytes = Inl InvalidTag"
    using that by (simp add: decrypt_payload_hex)
  moreover have "\<exists>n c a. bytes_fromhex nonce_hex = Inr n \<and> bytes_fromhex ciphertext_hex = Inr c \<and>
             str_encode aad = Inr a \<and> aead_decrypt P aes_key n c a = Inr plaintext"
    if "decrypt_payload P aes_key nonce_hex ciphertext_hex aad = Inr plaintext"
    using that
    by (auto simp: decrypt_payload_def aesgcm_init_def split: sum.splits if_splits)
  ultimately show ?thesis by blast
qed

lemma toy_flip_rejected:
  "aead_decrypt toy_provider (replicate 32 7) (replicate 12 0)
     ([105, 105] @ toy_tag (replicate 32 7) (replicate 12 0) [104, 105]
        (ascii_bytes ''icarus-telemetry-channel''))
     (ascii_bytes ''icarus-telemetry-channel'') = Inl InvalidTag"
  by (simp add: toy_fields(4) length_toy_tag toy_tag_def toy_hash_def)

theorem tamper_rejected_witness:
  "aesgcm_init (replicate 32 7) = Inr (replicate 32 7) \<and>
   str_encode (ascii ''icarus-telemetry-channel'') = Inr (ascii_bytes ''icarus-telemetry-channel'') \<and>
   aead_decrypt toy_provider (replicate 32 7) (replicate 12 0)
     ([105, 105] @ toy_tag (replicate 32 7) (replicate 12 0) [104, 105]
        (ascii_bytes ''icarus-telemetry-channel''))
     (ascii_bytes ''icarus-telemetry-channel'') = Inl InvalidTag \<and>
   decrypt_payload toy_provider (replicate 32 7) (bytes_hex (replicate 12 0))
     (bytes_hex ([105, 105] @ toy_tag (replicate 32 7) (replicate 12 0) [104, 105]
        (ascii_bytes ''icarus-telemetry-channel'')))
     (ascii ''icarus-telemetry-channel'') = Inl InvalidTag"
proof -
  have init: "aesgcm_init (replicate 32 7) = Inr (replicate 32 7)"
    by (simp add: aesgcm_init_def)
  show ?thesis
    using init aad_encode toy_flip_rejected
      tamper_rejected [of "replicate 32 7" "ascii ''icarus-telemetry-channel''"
        "ascii_bytes ''icarus-telemetry-channel''" toy_provider "replicate 12 0"
        "[105, 105] @ toy_tag (replicate 32 7) (replicate 12 0) [104, 105]
           (ascii_bytes ''icarus-telemetry-channel'')"]
    by blast
qed

section \<open>Nonces\<close>

lemma encrypt_payload_rng: "snd (encrypt_payload P aes_key plaintext rng) = sdrop 12 rng"
  by (simp add: encrypt_payload_def os_urandom_def Let_def)

lemma encrypt_payload_sample:
  "stake 12 r = stake 12 r' \<Longrightarrow>
     fst (encrypt_payload P aes_key plaintext r) = fst (encrypt_payload P aes_key plaintext r')"
  by (simp add: encrypt_payload_def os_urandom_def Let_def)

text \<open>
  C6. Every successful call of \<open>encrypt_payload\<close> takes the next 12 bytes of the random
  stream as its nonce (the returned hex text decodes to exactly these 12 bytes) and
  leaves the stream advanced by 12 bytes; it keeps nothing else, its result being the
  same for any stream with the same first 12 bytes. For any two calls, under the same
  key or not, whose 12-byte samples differ, the nonces differ; two calls in sequence
  read disjoint parts of the stream.
\<close>

theorem nonce_freshness:
  assumes "fst (encrypt_payload P k1 p1 r1) = Inr (n1, c1, a1)"
    and "fst (encrypt_payload P k2 p2 r2) = Inr (n2, c2, a2)"
  shows "bytes_fromhex n1 = Inr (stake 12 r1) \<and> length (stake 12 r1) = 12 \<and>
         snd (encrypt_payload P k1 p1 r1) = sdrop 12 r1 \<and>
         (stake 12 r1 \<noteq> stake 12 r2 \<longrightarrow> n1 \<noteq> n2) \<and>
         (\<forall>r. stake 12 r = stake 12 r1 \<longrightarrow>
            fst (encrypt_payload P k1 p1 r) = fst (encrypt_payload P k1 p1 r1))"
proof -
  have n1: "n1 = bytes_hex (stake 12 r1)" and n2: "n2 = bytes_hex (stake 12 r2)"
    using encrypt_payload_Inr [OF assms(1)] encrypt_payload_Inr [OF assms(2)] by blast+
  have fresh: "stake 12 r1 \<noteq> stake 12 r2 \<longrightarrow> n1 \<noteq> n2"
    unfolding n1 n2 using hex_inj by blast
  have decoded: "bytes_fromhex n1 = Inr (stake 12 r1)"
    unfolding n1 by (rule fromhex_hex)
  have same: "\<forall>r. stake 12 r = stake 12 r1 \<longrightarrow>
      fst (encrypt_payload P k1 p1 r) = fst (encrypt_payload P k1 p1 r1)"
    using encrypt_payload_sample by blast
  from decoded length_stake encrypt_payload_rng fresh same show ?thesis
    by (intro conjI)
qed

lemma toy_encrypt_payload:
  "length key = 32 \<Longrightarrow> \<exists>n c a. fst (encrypt_payload toy_provider key plaintext rng) = Inr (n, c, a)"
  by (simp add: encrypt_payload_def os_urandom_def aesgcm_init_def toy_fields(3) aad_decode)

theorem nonce_freshness_witness:
  "\<exists>n1 c1 a1 n2 c2 a2.
     fst (encrypt_payload toy_provider (replicate 32 7) [104, 105] (replicate 12 1 @- sconst 2))
       = Inr (n1, c1, a1) \<and>
     fst (encrypt_payload toy_provider (replicate 32 7) [104, 105]
            (snd (encrypt_payload toy_provider (replicate 32 7) [104, 105]
               (replicate 12 1 @- sconst 2))))
       = Inr (n2, c2, a2) \<and>
     stake 12 (replicate 12 1 @- sconst 2 :: byte stream)
       \<noteq> stake 12 (snd (encrypt_payload toy_provider (replicate 32 7) [104, 105]
               (replicate 12 1 @- sconst 2))) \<and>
     n1 \<noteq> n2 \<and> bytes_fromhex n1 = Inr (replicate 12 1)"
proof -
  let ?r1 = "replicate 12 1 @- sconst 2 :: byte stream"
  let ?r2 = "snd (encrypt_payload toy_provider (replicate 32 7) [104, 105] ?r1)"
  have len: "length (replicate 32 7 :: bytes) = 32" by simp
  obtain n1 c1 a1 where e1:
    "fst (encrypt_payload toy_provider (replicate 32 7) [104, 105] ?r1) = Inr (n1, c1, a1)"
    using toy_encrypt_payload [OF len, of "[104, 105]" ?r1] by blast
  obtain n2 c2 a2 where e2:
    "fst (encrypt_payload toy_provider (replicate 32 7) [104, 105] ?r2) = Inr (n2, c2, a2)"
    using toy_encrypt_payload [OF len, of "[104, 105]" ?r2] by blast
  have r2: "?r2 = sconst 2" by (simp add: encrypt_payload_rng sdrop_shift)
  have s1: "stake 12 ?r1 = replicate 12 1" by (simp add: stake_shift)
  have ne: "stake 12 ?r1 ! 0 \<noteq> stake 12 ?r2 ! 0" unfolding r2 s1 by simp
  have diff: "stake 12 ?r1 \<noteq> stake 12 ?r2"
  proof
    assume "stake 12 ?r1 = stake 12 ?r2"
    then have "stake 12 ?r1 ! 0 = stake 12 ?r2 ! 0" by (rule arg_cong)
    with ne show False by (rule notE)
  qed
  note nf = nonce_freshness [OF e1 e2]
  have dec1: "bytes_fromhex n1 = Inr (replicate 12 1)"
    using nf [THEN conjunct1] unfolding s1 .
  have fresh: "n1 \<noteq> n2"
    using nf [THEN conjunct2, THEN conjunct2, THEN conjunct2, THEN conjunct1] diff
    by (rule mp)
  from e1 e2 diff fresh dec1 show ?thesis by (intro exI conjI)
qed

end
